theory Spec2Isabelle
  imports Complex_Main "HOL-Library.AList" "HOL-Library.Sublist"
begin

section \<open>Python values\<close>

text \<open>
  The values that travel through the pipeline are the ones a YAML document or the entity
  extractor can produce: \<open>None\<close>, booleans, integers, strings, lists and dictionaries
  with string keys.  A dictionary is an association list in insertion order (Python
  dictionaries keep insertion order and have distinct keys).  Floating point values are
  not modelled.
\<close>

datatype pyval =
    PNone
  | PBool bool
  | PInt int
  | PStr string
  | PList "pyval list"
  | PDict "(string \<times> pyval) list"

type_synonym pydict = "(string \<times> pyval) list"

text \<open>\<open>d.get(k, default)\<close> and \<open>k in d\<close>.\<close>

definition dict_get :: "pydict \<Rightarrow> string \<Rightarrow> pyval \<Rightarrow> pyval" where
  "dict_get d k dflt = (case map_of d k of None \<Rightarrow> dflt | Some v \<Rightarrow> v)"

definition dict_has :: "pydict \<Rightarrow> string \<Rightarrow> bool" where
  "dict_has d k \<longleftrightarrow> map_of d k \<noteq> None"

section \<open>Placeholder substitution (\<open>WorkflowManager._replace_parameters\<close>)\<close>

text \<open>\<open>value.startswith('${') and value.endswith('}')\<close>\<close>

definition is_placeholder :: "string \<Rightarrow> bool" where
  "is_placeholder s \<longleftrightarrow> take 2 s = ''${'' \<and> s \<noteq> [] \<and> last s = CHR ''}''"

text \<open>\<open>value[2:-1]\<close>\<close>

definition param_name :: "string \<Rightarrow> string" where
  "param_name s = butlast (drop 2 s)"

text \<open>
  \<open>_replace_parameters\<close> walks the items of the step parameters and builds the result
  dictionary key by key; \<open>_replace_item\<close> treats one element of a list, and
  \<open>replace_items\<close> is the list comprehension \<open>[self._replace_item(item, parameters) for
  item in value]\<close>.
\<close>

fun replace_parameters :: "pydict \<Rightarrow> pydict \<Rightarrow> pydict"
  and replace_item :: "pyval \<Rightarrow> pydict \<Rightarrow> pyval"
  and replace_items :: "pyval list \<Rightarrow> pydict \<Rightarrow> pyval list"
where
  "replace_parameters [] parameters = []"
| "replace_parameters ((key, PStr s) # rest) parameters =
     (key,
      if is_placeholder s then
        (if dict_has parameters (param_name s)
         then the (map_of parameters (param_name s))
         else PStr s)
      else PStr s) # replace_parameters rest parameters"
| "replace_parameters ((key, PDict d) # rest) parameters =
     (key, PDict (replace_parameters d parameters)) # replace_parameters rest parameters"
| "replace_parameters ((key, PList l) # rest) parameters =
     (key, PList (replace_items l parameters)) # replace_parameters rest parameters"
| "replace_parameters ((key, v) # rest) parameters =
     (key, v) # replace_parameters rest parameters"
| "replace_item (PStr s) parameters =
     (if is_placeholder s \<and> dict_has parameters (param_name s)
      then the (map_of parameters (param_name s))
      else PStr s)"
| "replace_item (PDict d) parameters = PDict (replace_parameters d parameters)"
| "replace_item (PList l) parameters = PList (replace_items l parameters)"
| "replace_item v parameters = v"
| "replace_items [] parameters = []"
| "replace_items (item # items) parameters =
     replace_item item parameters # replace_items items parameters"

section \<open>Python built-in operations used by the engine\<close>

text \<open>Truth value of a Python object (\<open>not x\<close>, \<open>if x:\<close>).\<close>

fun truthy :: "pyval \<Rightarrow> bool" where
  "truthy PNone = False"
| "truthy (PBool b) = b"
| "truthy (PInt i) = (i \<noteq> 0)"
| "truthy (PStr s) = (s \<noteq> [])"
| "truthy (PList l) = (l \<noteq> [])"
| "truthy (PDict d) = (d \<noteq> [])"

text \<open>\<open>isinstance(x, dict)\<close>\<close>

fun is_dict :: "pyval \<Rightarrow> bool" where
  "is_dict (PDict d) = True"
| "is_dict v = False"

fun the_dict :: "pyval \<Rightarrow> pydict" where
  "the_dict (PDict d) = d"
| "the_dict v = []"

fun type_name :: "pyval \<Rightarrow> string" where
  "type_name PNone = ''NoneType''"
| "type_name (PBool b) = ''bool''"
| "type_name (PInt i) = ''int''"
| "type_name (PStr s) = ''str''"
| "type_name (PList l) = ''list''"
| "type_name (PDict d) = ''dict''"

text \<open>A text between single quotes, as in \<open>f"'{name}'"\<close>.\<close>

definition quoted :: "string \<Rightarrow> string" where
  "quoted s = [CHR 0x27] @ s @ [CHR 0x27]"

text \<open>
  An exception is observed by the engine only through \<open>str(e)\<close>; the constructor keeps
  apart the \<open>TypeError\<close> of a comparison from whatever an integration raises.
\<close>

datatype exn = TypeError string | Raised string

fun exn_str :: "exn \<Rightarrow> string" where
  "exn_str (TypeError m) = m"
| "exn_str (Raised m) = m"

text \<open>Booleans are integers in Python: \<open>True == 1\<close>.\<close>

fun num_of :: "pyval \<Rightarrow> int option" where
  "num_of (PBool b) = Some (if b then 1 else 0)"
| "num_of (PInt i) = Some i"
| "num_of v = None"

text \<open>
  \<open>a == b\<close>.  Numbers compare by value, strings and lists element by element, two
  dictionaries are equal when they have the same number of keys and each key of the
  first is bound to an equal value in the second; values of different kinds are unequal.
\<close>

fun py_eq :: "pyval \<Rightarrow> pyval \<Rightarrow> bool"
  and py_eq_list :: "pyval list \<Rightarrow> pyval list \<Rightarrow> bool"
  and py_eq_items :: "pydict \<Rightarrow> pydict \<Rightarrow> bool"
where
  "py_eq PNone b = (b = PNone)"
| "py_eq (PBool x) b = (case num_of b of Some n \<Rightarrow> n = (if x then 1 else 0) | None \<Rightarrow> False)"
| "py_eq (PInt i) b = (case num_of b of Some n \<Rightarrow> n = i | None \<Rightarrow> False)"
| "py_eq (PStr s) b = (b = PStr s)"
| "py_eq (PList xs) b = (case b of PList ys \<Rightarrow> py_eq_list xs ys | _ \<Rightarrow> False)"
| "py_eq (PDict xs) b =
     (case b of PDict ys \<Rightarrow> length xs = length ys \<and> py_eq_items xs ys | _ \<Rightarrow> False)"
| "py_eq_list [] ys = (ys = [])"
| "py_eq_list (x # xs) ys = (case ys of [] \<Rightarrow> False | y # ys' \<Rightarrow> py_eq x y \<and> py_eq_list xs ys')"
| "py_eq_items [] ys = True"
| "py_eq_items ((k, v) # xs) ys =
     (case map_of ys k of None \<Rightarrow> False | Some v' \<Rightarrow> py_eq v v' \<and> py_eq_items xs ys)"

text \<open>The four ordering operators \<open><\<close>, \<open><=\<close>, \<open>>\<close>, \<open>>=\<close>.\<close>

datatype cmp = LT | LE | GT | GE

fun cmp_sym :: "cmp \<Rightarrow> string" where
  "cmp_sym LT = ''<''"
| "cmp_sym LE = ''<=''"
| "cmp_sym GT = ''>''"
| "cmp_sym GE = ''>=''"

fun cmp_int :: "cmp \<Rightarrow> int \<Rightarrow> int \<Rightarrow> bool" where
  "cmp_int LT m n = (m < n)"
| "cmp_int LE m n = (m \<le> n)"
| "cmp_int GT m n = (m > n)"
| "cmp_int GE m n = (m \<ge> n)"

text \<open>Strings are ordered lexicographically by character code.\<close>

fun str_lt :: "string \<Rightarrow> string \<Rightarrow> bool" where
  "str_lt [] [] = False"
| "str_lt [] (y # ys) = True"
| "str_lt (x # xs) [] = False"
| "str_lt (x # xs) (y # ys) =
     ((of_char x :: nat) < of_char y \<or> (x = y \<and> str_lt xs ys))"

fun cmp_str :: "cmp \<Rightarrow> string \<Rightarrow> string \<Rightarrow> bool" where
  "cmp_str LT s t = str_lt s t"
| "cmp_str LE s t = (\<not> str_lt t s)"
| "cmp_str GT s t = str_lt t s"
| "cmp_str GE s t = (\<not> str_lt s t)"

definition not_supported :: "cmp \<Rightarrow> pyval \<Rightarrow> pyval \<Rightarrow> exn" where
  "not_supported c a b =
     TypeError (quoted (cmp_sym c) @ '' not supported between instances of ''
                @ quoted (type_name a) @ '' and '' @ quoted (type_name b))"

text \<open>
  Ordering of two values: numbers by value, strings lexicographically, lists by their
  first pair of unequal elements (or by length when one is a prefix of the other);
  every other combination raises \<open>TypeError\<close>.
\<close>

fun py_cmp :: "cmp \<Rightarrow> pyval \<Rightarrow> pyval \<Rightarrow> exn + bool"
  and py_cmp_list :: "cmp \<Rightarrow> pyval list \<Rightarrow> pyval list \<Rightarrow> exn + bool"
where
  "py_cmp c (PList xs) b =
     (case b of PList ys \<Rightarrow> py_cmp_list c xs ys | _ \<Rightarrow> Inl (not_supported c (PList xs) b))"
| "py_cmp c (PStr s) b =
     (case b of PStr t \<Rightarrow> Inr (cmp_str c s t) | _ \<Rightarrow> Inl (not_supported c (PStr s) b))"
| "py_cmp c a b =
     (case num_of a of
        None \<Rightarrow> Inl (not_supported c a b)
      | Some m \<Rightarrow> (case num_of b of
                    None \<Rightarrow> Inl (not_supported c a b)
                  | Some n \<Rightarrow> Inr (cmp_int c m n)))"
| "py_cmp_list c [] [] = Inr (cmp_int c 0 0)"
| "py_cmp_list c [] (y # ys) = Inr (cmp_int c 0 1)"
| "py_cmp_list c (x # xs) [] = Inr (cmp_int c 1 0)"
| "py_cmp_list c (x # xs) (y # ys) =
     (if py_eq x y then py_cmp_list c xs ys else py_cmp c x y)"

text \<open>
  \<open>needle in haystack\<close>: substring test on strings, element test on lists, key test on
  dictionaries; anything else raises \<open>TypeError\<close>.
\<close>

fun py_in :: "pyval \<Rightarrow> pyval \<Rightarrow> exn + bool" where
  "py_in needle (PStr s) =
     (case needle of
        PStr n \<Rightarrow> Inr (sublist n s)
      | _ \<Rightarrow> Inl (TypeError (quoted ''in <string>'' @ '' requires string as left operand, not ''
                             @ type_name needle)))"
| "py_in needle (PList l) = Inr (list_ex (\<lambda>x. py_eq x needle) l)"
| "py_in needle (PDict d) =
     (case needle of
        PStr n \<Rightarrow> Inr (dict_has d n)
      | PList x \<Rightarrow> Inl (TypeError (''unhashable type: '' @ quoted ''list''))
      | PDict x \<Rightarrow> Inl (TypeError (''unhashable type: '' @ quoted ''dict''))
      | _ \<Rightarrow> Inr False)"
| "py_in needle v =
     Inl (TypeError (''argument of type '' @ quoted (type_name v) @ '' is not iterable''))"

text \<open>\<open>str.lower()\<close> on ASCII text, and \<open>str(n)\<close> for integers.\<close>

definition lower_char :: "char \<Rightarrow> char" where
  "lower_char c =
     (let n = (of_char c :: nat) in if 65 \<le> n \<and> n \<le> 90 then char_of (n + 32) else c)"

definition lower :: "string \<Rightarrow> string" where
  "lower s = map lower_char s"

fun str_of_nat :: "nat \<Rightarrow> string" where
  "str_of_nat n =
     (if n < 10 then [char_of (48 + n)]
      else str_of_nat (n div 10) @ [char_of (48 + n mod 10)])"

definition str_of_int :: "int \<Rightarrow> string" where
  "str_of_int i = (if i < 0 then CHR ''-'' # str_of_nat (nat (- i)) else str_of_nat (nat i))"

declare str_of_nat.simps [simp del]

text \<open>
  \<open>str(x)\<close> as an f-string interpolates it.  A string stands for itself; inside a list
  or a dictionary \<open>repr\<close> is used, which is rendered here as the text between single
  quotes (exact for strings without quotes, backslashes and control characters).
\<close>

fun py_repr :: "pyval \<Rightarrow> string"
  and repr_list :: "pyval list \<Rightarrow> string"
  and repr_items :: "pydict \<Rightarrow> string"
where
  "py_repr PNone = ''None''"
| "py_repr (PBool b) = (if b then ''True'' else ''False'')"
| "py_repr (PInt i) = str_of_int i"
| "py_repr (PStr s) = quoted s"
| "py_repr (PList l) = ''['' @ repr_list l @ '']''"
| "py_repr (PDict d) = ''{'' @ repr_items d @ ''}''"
| "repr_list [] = []"
| "repr_list (x # xs) = py_repr x @ (if xs = [] then [] else '', '' @ repr_list xs)"
| "repr_items [] = []"
| "repr_items ((k, v) # kvs) =
     quoted k @ '': '' @ py_repr v @ (if kvs = [] then [] else '', '' @ repr_items kvs)"

fun py_str :: "pyval \<Rightarrow> string" where
  "py_str (PStr s) = s"
| "py_str v = py_repr v"

section \<open>Workflow templates\<close>

text \<open>
  A workflow template is the parsed YAML document.  Each field the engine reads with
  \<open>.get(key, default)\<close> is optional where the default matters (\<open>name\<close>, \<open>operator\<close>,
  \<open>step\<close>, \<open>parameter\<close>); where the default is the empty value (\<open>type\<close> \<open>''\<close>,
  \<open>parameters\<close> \<open>{}\<close>, \<open>then\<close>/\<open>else\<close> \<open>[]\<close>, \<open>value\<close> \<open>None\<close>, a missing \<open>condition\<close>
  \<open>{}\<close>) the absent field is that empty value.
\<close>

record condition =
  cond_type :: string
  cond_parameter :: "string option"
  cond_value :: pyval
  cond_operator :: "string option"
  cond_step :: "int option"

datatype step =
  Step (s_name: "string option") (s_type: string) (s_parameters: pydict)
       (s_condition: condition) (s_then: "step list") (s_else: "step list")

datatype workflow = Workflow (wf_name: "string option") (wf_steps: "step list")

text \<open>One entry of the \<open>results\<close> list of \<open>_execute_workflow\<close>.\<close>

record step_result =
  sr_step :: nat
  sr_name :: string
  sr_type :: string
  sr_result :: pyval

section \<open>Integrations\<close>

text \<open>
  The three integration objects (\<open>self.jenkins\<close>, \<open>self.ansible\<close>, \<open>self.terraform\<close>)
  talk to external tools.  They are parameters of the model: each call receives its
  arguments and the state \<open>'w\<close> of the outside world, and either raises or returns a
  value, together with the new state of the world.
\<close>

record 'w integrations =
  jenkins_trigger_job :: "pyval \<Rightarrow> pyval \<Rightarrow> pyval \<Rightarrow> 'w \<Rightarrow> (exn + pyval) \<times> 'w"
  ansible_run_playbook :: "pyval \<Rightarrow> pyval \<Rightarrow> pyval \<Rightarrow> 'w \<Rightarrow> (exn + pyval) \<times> 'w"
  terraform_run_terraform :: "pyval \<Rightarrow> pyval \<Rightarrow> pyval \<Rightarrow> pyval \<Rightarrow> 'w \<Rightarrow> (exn + pyval) \<times> 'w"

definition failure :: "string \<Rightarrow> pyval" where
  "failure m = PDict [(''success'', PBool False), (''message'', PStr m)]"

definition success :: "string \<Rightarrow> pyval" where
  "success m = PDict [(''success'', PBool True), (''message'', PStr m)]"

definition execute_jenkins_step ::
  "'w integrations \<Rightarrow> pydict \<Rightarrow> 'w \<Rightarrow> (exn + pyval) \<times> 'w" where
  "execute_jenkins_step I params w =
     (let job_name = dict_get params ''job'' PNone;
          job_params = dict_get params ''parameters'' (PDict []);
          wait = dict_get params ''wait'' (PBool True)
      in if \<not> truthy job_name then (Inr (failure ''No Jenkins job specified''), w)
         else jenkins_trigger_job I job_name job_params wait w)"

definition execute_ansible_step ::
  "'w integrations \<Rightarrow> pydict \<Rightarrow> 'w \<Rightarrow> (exn + pyval) \<times> 'w" where
  "execute_ansible_step I params w =
     (let playbook = dict_get params ''playbook'' PNone;
          inventory = dict_get params ''inventory'' PNone;
          extra_vars = dict_get params ''extra_vars'' (PDict [])
      in if \<not> truthy playbook then (Inr (failure ''No Ansible playbook specified''), w)
         else ansible_run_playbook I playbook inventory extra_vars w)"

definition execute_terraform_step ::
  "'w integrations \<Rightarrow> pydict \<Rightarrow> 'w \<Rightarrow> (exn + pyval) \<times> 'w" where
  "execute_terraform_step I params w =
     (let action = dict_get params ''action'' (PStr ''apply'');
          workspace = dict_get params ''workspace'' (PStr ''default'');
          var_file = dict_get params ''var_file'' PNone;
          vars_dict = dict_get params ''vars'' (PDict [])
      in terraform_run_terraform I action workspace var_file vars_dict w)"

text \<open>The notification step only logs; it calls no integration.\<close>

definition execute_notification_step :: "pydict \<Rightarrow> pyval" where
  "execute_notification_step params =
     (let message = dict_get params ''message'' (PStr ''Notification from ChatOps'')
      in success (''Notification sent: '' @ py_str message))"

section \<open>Condition evaluation (\<open>_evaluate_condition\<close>)\<close>

definition evaluate_condition :: "pyval \<Rightarrow> pyval \<Rightarrow> string \<Rightarrow> exn + bool" where
  "evaluate_condition actual_value expected_value operator =
     (if operator = ''eq'' then Inr (py_eq actual_value expected_value)
      else if operator = ''ne'' then Inr (\<not> py_eq actual_value expected_value)
      else if operator = ''gt'' then py_cmp GT actual_value expected_value
      else if operator = ''lt'' then py_cmp LT actual_value expected_value
      else if operator = ''ge'' then py_cmp GE actual_value expected_value
      else if operator = ''le'' then py_cmp LE actual_value expected_value
      else if operator = ''contains'' then py_in expected_value actual_value
      else if operator = ''not_contains'' then
        (case py_in expected_value actual_value of Inl e \<Rightarrow> Inl e | Inr b \<Rightarrow> Inr (\<not> b))
      else Inr False)"

section \<open>The execution report (\<open>_format_workflow_result\<close>)\<close>

text \<open>A step failed when its result is a dictionary whose \<open>success\<close> is false.\<close>

definition step_failed :: "pyval \<Rightarrow> bool" where
  "step_failed r \<longleftrightarrow> is_dict r \<and> \<not> truthy (dict_get (the_dict r) ''success'' (PBool True))"

text \<open>The loop that computes \<open>all_success\<close>, with its \<open>break\<close>.\<close>

fun all_success :: "step_result list \<Rightarrow> bool" where
  "all_success [] = True"
| "all_success (r # rs) = (if step_failed (sr_result r) then False else all_success rs)"

text \<open>The UTF-8 encodings of the three marks of the report.\<close>

definition mark_ok :: string where
  "mark_ok = [CHR 0xE2, CHR 0x9C, CHR 0x85]"

definition mark_failed :: string where
  "mark_failed = [CHR 0xE2, CHR 0x9D, CHR 0x8C]"

definition mark_plain :: string where
  "mark_plain = [CHR 0xE2, CHR 0x9C, CHR 0x93]"

definition newline :: string where
  "newline = [CHR 0x0A]"

definition format_step :: "step_result \<Rightarrow> string" where
  "format_step r =
     (let head = '' Step '' @ str_of_nat (sr_step r) @ '': '' @ sr_name r
                 @ '' ('' @ sr_type r @ '') - ''
      in if is_dict (sr_result r) then
           (let ok = dict_get (the_dict (sr_result r)) ''success'' (PBool True);
                result_message = dict_get (the_dict (sr_result r)) ''message'' (PStr ''No message'')
            in if truthy ok then ''  '' @ mark_ok @ head @ py_str result_message @ newline
               else ''  '' @ mark_failed @ head @ py_str result_message @ newline)
         else ''  '' @ mark_plain @ head @ py_str (sr_result r) @ newline)"

definition format_workflow_result :: "string \<Rightarrow> step_result list \<Rightarrow> string" where
  "format_workflow_result workflow_name results =
     (if all_success results
      then mark_ok @ '' Workflow '' @ quoted workflow_name @ '' completed successfully''
           @ newline @ newline
      else mark_failed @ '' Workflow '' @ quoted workflow_name @ '' failed'' @ newline @ newline)
     @ ''Steps:'' @ newline @ concat (map format_step results)"

section \<open>The step execution engine (\<open>_execute_workflow\<close>, \<open>_execute_condition_step\<close>)\<close>

definition step_entry :: "nat \<Rightarrow> string \<Rightarrow> string \<Rightarrow> pyval \<Rightarrow> step_result" where
  "step_entry i step_name step_type r =
     \<lparr>sr_step = i, sr_name = step_name, sr_type = step_type, sr_result = r\<rparr>"

text \<open>
  \<^item> \<open>execute_workflow\<close> is \<open>_execute_workflow\<close>: it returns the text of the report and
    the new state of the world.
  \<^item> \<open>run_steps\<close> is its \<open>for i, step in enumerate(steps, 1)\<close> loop: \<open>i\<close> is the number
    of the step at the head of the remaining steps, \<open>results\<close> the list gathered so far;
    it returns the list that is handed to \<open>_format_workflow_result\<close>.  An exception
    raised while a step executes is caught by the loop and recorded as a failure.
  \<^item> \<open>execute_condition_step\<close> is \<open>_execute_condition_step\<close>; an exception of
    \<open>_evaluate_condition\<close> leaves it (the loop above catches it).
  \<^item> \<open>run_branch\<close> is the loop \<open>for then_step in then_steps:
    self._execute_workflow({'steps': [then_step]}, parameters)\<close>, whose returned texts are
    dropped.
  Log messages are not modelled.
\<close>

function execute_workflow :: "'w integrations \<Rightarrow> workflow \<Rightarrow> pydict \<Rightarrow> 'w \<Rightarrow> string \<times> 'w"
  and run_steps ::
    "'w integrations \<Rightarrow> pydict \<Rightarrow> nat \<Rightarrow> step list \<Rightarrow> step_result list \<Rightarrow> 'w
      \<Rightarrow> step_result list \<times> 'w"
  and execute_condition_step ::
    "'w integrations \<Rightarrow> step \<Rightarrow> pydict \<Rightarrow> step_result list \<Rightarrow> 'w \<Rightarrow> (exn + pyval) \<times> 'w"
  and run_branch :: "'w integrations \<Rightarrow> step list \<Rightarrow> pydict \<Rightarrow> 'w \<Rightarrow> 'w"
where
  "execute_workflow I (Workflow name steps) parameters w =
     (let workflow_name = (case name of Some n \<Rightarrow> n | None \<Rightarrow> ''Unnamed workflow'')
      in if steps = [] then
           (''Workflow '' @ quoted workflow_name @ '' has no steps to execute'', w)
         else
           (case run_steps I parameters 1 steps [] w of
              (results, w') \<Rightarrow> (format_workflow_result workflow_name results, w')))"
| "run_steps I parameters i [] results w = (results, w)"
| "run_steps I parameters i (Step name ty sp cond th el # rest) results w =
     (let step_name = (case name of Some n \<Rightarrow> n | None \<Rightarrow> ''Step '' @ str_of_nat i);
          step_type = lower ty;
          step_params = replace_parameters sp parameters
      in case (if step_type = ''jenkins'' then execute_jenkins_step I step_params w
               else if step_type = ''ansible'' then execute_ansible_step I step_params w
               else if step_type = ''terraform'' then execute_terraform_step I step_params w
               else if step_type = ''condition'' then
                 execute_condition_step I (Step name ty sp cond th el) parameters results w
               else if step_type = ''notification'' then
                 (Inr (execute_notification_step step_params), w)
               else (Inr (PStr (''Unknown step type: '' @ step_type)), w))
         of
           (Inr r, w') \<Rightarrow>
             (let results' = results @ [step_entry i step_name step_type r]
              in if step_failed r then (results', w')
                 else run_steps I parameters (Suc i) rest results' w')
         | (Inl e, w') \<Rightarrow>
             (results @ [step_entry i step_name step_type (failure (exn_str e))], w'))"
| "execute_condition_step I (Step name ty sp cond th el) parameters results w =
     (if cond_type cond = ''parameter'' then
        (case cond_parameter cond of
           None \<Rightarrow> (Inr (failure (''Parameter '' @ quoted ''None'' @ '' not found'')), w)
         | Some p \<Rightarrow>
             if \<not> dict_has parameters p then
               (Inr (failure (''Parameter '' @ quoted p @ '' not found'')), w)
             else
               (case evaluate_condition (the (map_of parameters p)) (cond_value cond)
                       (case cond_operator cond of Some operator \<Rightarrow> operator | None \<Rightarrow> ''eq'')
                of
                  Inl e \<Rightarrow> (Inl e, w)
                | Inr b \<Rightarrow>
                    if b then
                      (Inr (success ''Condition evaluated to true''),
                       if th \<noteq> [] then run_branch I th parameters w else w)
                    else
                      (Inr (success ''Condition evaluated to false''),
                       if el \<noteq> [] then run_branch I el parameters w else w)))
      else if cond_type cond = ''result'' then
        (let step_index = (case cond_step cond of Some n \<Rightarrow> n | None \<Rightarrow> 1) - 1
         in if step_index < 0 \<or> step_index \<ge> int (length results) then
              (Inr (failure (''Step '' @ str_of_int (step_index + 1) @ '' result not found'')), w)
            else
              (let step_result = sr_result (results ! nat step_index)
               in if is_dict step_result then
                    (if truthy (dict_get (the_dict step_result) ''success'' (PBool False)) then
                       (Inr (success ''Condition evaluated to true''),
                        if th \<noteq> [] then run_branch I th parameters w else w)
                     else
                       (Inr (success ''Condition evaluated to false''),
                        if el \<noteq> [] then run_branch I el parameters w else w))
                  else (Inr (failure (''Unknown condition type: '' @ cond_type cond)), w)))
      else (Inr (failure (''Unknown condition type: '' @ cond_type cond)), w))"
| "run_branch I [] parameters w = w"
| "run_branch I (s # rest) parameters w =
     run_branch I rest parameters (snd (execute_workflow I (Workflow None [s]) parameters w))"
  by pat_completeness auto

termination
  apply (relation "measure (\<lambda>x. case x of
      Inl (Inl (I, wfl, ps, w)) \<Rightarrow> 3 * size_list size (wf_steps wfl) + 1
    | Inl (Inr (I, ps, i, steps, rs, w)) \<Rightarrow> 3 * size_list size steps
    | Inr (Inl (I, s, ps, rs, w)) \<Rightarrow> 3 * size s
    | Inr (Inr (I, steps, ps, w)) \<Rightarrow> 3 * size_list size steps + 2)")
  apply simp_all
  done

section \<open>The command builder (\<open>CommandParser.parse\<close>)\<close>

record command_template =
  tpl_action :: string
  tpl_required_entities :: "string list"
  tpl_optional_entities :: "string list"
  tpl_defaults :: pydict
  tpl_workflow :: "string option"

record command =
  cmd_action :: string
  cmd_parameters :: pydict
  cmd_workflow :: "string option"

text \<open>The table returned by \<open>_load_command_templates\<close>.\<close>

definition command_templates :: "(string \<times> command_template) list" where
  "command_templates =
     [(''deploy'',
       \<lparr>tpl_action = ''deploy'',
        tpl_required_entities = [''service''],
        tpl_optional_entities = [''environment'', ''version''],
        tpl_defaults = [(''environment'', PStr ''development''), (''version'', PStr ''latest'')],
        tpl_workflow = Some ''deploy_workflow.yaml''\<rparr>),
      (''scale'',
       \<lparr>tpl_action = ''scale'',
        tpl_required_entities = [''service''],
        tpl_optional_entities = [''count'', ''direction'', ''environment''],
        tpl_defaults = [(''environment'', PStr ''development''), (''count'', PStr ''1''),
                        (''direction'', PStr ''up'')],
        tpl_workflow = Some ''scale_workflow.yaml''\<rparr>),
      (''status'',
       \<lparr>tpl_action = ''status'',
        tpl_required_entities = [],
        tpl_optional_entities = [''service'', ''environment''],
        tpl_defaults = [(''environment'', PStr ''development'')],
        tpl_workflow = Some ''status_workflow.yaml''\<rparr>),
      (''provision'',
       \<lparr>tpl_action = ''provision'',
        tpl_required_entities = [''resource''],
        tpl_optional_entities = [''count'', ''environment'', ''region''],
        tpl_defaults = [(''environment'', PStr ''development''), (''count'', PStr ''1''),
                        (''region'', PStr ''us-east-1'')],
        tpl_workflow = Some ''provision_workflow.yaml''\<rparr>),
      (''help'',
       \<lparr>tpl_action = ''help'',
        tpl_required_entities = [],
        tpl_optional_entities = [''topic''],
        tpl_defaults = [],
        tpl_workflow = None\<rparr>)]"

text \<open>\<open>d[key] = value\<close> for every item of \<open>items\<close>, in order.\<close>

definition store_all :: "pydict \<Rightarrow> pydict \<Rightarrow> pydict" where
  "store_all items d = fold (\<lambda>kv. AList.update (fst kv) (snd kv)) items d"

text \<open>
  \<open>parse\<close> reads the table \<open>self.command_templates\<close>, here its first argument.  The
  \<open>workflow\<close> key is set only when the template's workflow is a non-empty text.
\<close>

definition parse :: "(string \<times> command_template) list \<Rightarrow> string \<Rightarrow> pydict \<Rightarrow> command option" where
  "parse templates intent entities =
     (case map_of templates intent of
        None \<Rightarrow> None
      | Some template \<Rightarrow>
          if list_ex (\<lambda>required. \<not> dict_has entities required) (tpl_required_entities template)
          then None
          else Some
            \<lparr>cmd_action = tpl_action template,
             cmd_parameters = store_all entities (store_all (tpl_defaults template) []),
             cmd_workflow =
               (case tpl_workflow template of
                  None \<Rightarrow> None
                | Some name \<Rightarrow> if name \<noteq> [] then Some name else None)\<rparr>)"

section \<open>The message pipeline (\<open>ChatOpsApp.process_message\<close>)\<close>

text \<open>The \<open>security\<close> section of the configuration and the confidence threshold.\<close>

record config =
  authorized_users :: "string list"
  restricted_commands :: "string list"
  admin_users :: "string list"
  approval_required :: "string list"
  confidence_threshold :: real

definition is_user_authorized :: "config \<Rightarrow> string \<Rightarrow> string \<Rightarrow> bool" where
  "is_user_authorized cfg user_id message =
     (if user_id \<notin> set (authorized_users cfg) then False
      else \<not> list_ex (\<lambda>restricted. sublist (lower restricted) (lower message)
                                   \<and> user_id \<notin> set (admin_users cfg))
                 (restricted_commands cfg))"

definition requires_approval :: "config \<Rightarrow> string \<Rightarrow> bool" where
  "requires_approval cfg message =
     list_ex (\<lambda>command. sublist (lower command) (lower message)) (approval_required cfg)"

text \<open>
  The collaborators of \<open>process_message\<close>: the configuration, \<open>self.nlp.process\<close> (the
  intent and entity extractor, which returns intent, entities and confidence), the
  template table of the command parser, and \<open>self.workflow_manager.execute\<close>, which
  returns the text of the report or raises.
\<close>

record 'w app =
  app_config :: config
  nlp_process :: "string \<Rightarrow> string \<times> pydict \<times> real"
  app_templates :: "(string \<times> command_template) list"
  wm_execute :: "command \<Rightarrow> 'w \<Rightarrow> (exn + string) \<times> 'w"

definition not_authorized_text :: string where
  "not_authorized_text = ''You are not authorized to perform this action.''"

definition not_sure_text :: string where
  "not_sure_text =
     ''I'' @ [CHR 0x27] @ ''m not sure what you want to do. Could you please be more specific?''"

definition not_understood_text :: string where
  "not_understood_text =
     ''I couldn'' @ [CHR 0x27] @ ''t understand your command. Please try again.''"

definition needs_approval_text :: string where
  "needs_approval_text =
     ''This command requires approval. Please have an admin confirm this action.''"

definition process_message :: "'w app \<Rightarrow> string \<Rightarrow> string \<Rightarrow> string \<Rightarrow> 'w \<Rightarrow> string \<times> 'w" where
  "process_message app message user_id channel_id w =
     (if \<not> is_user_authorized (app_config app) user_id message then (not_authorized_text, w)
      else
        (case nlp_process app message of
           (intent, entities, confidence) \<Rightarrow>
             if confidence < confidence_threshold (app_config app) then (not_sure_text, w)
             else
               (case parse (app_templates app) intent entities of
                  None \<Rightarrow> (not_understood_text, w)
                | Some command \<Rightarrow>
                    if requires_approval (app_config app) message then (needs_approval_text, w)
                    else
                      (case wm_execute app command w of
                         (Inr result, w') \<Rightarrow> (result, w')
                       | (Inl e, w') \<Rightarrow> (''Error executing command: '' @ exn_str e, w')))))"

section \<open>The branch a condition selects\<close>

text \<open>
  \<open>selected_branch\<close> reads off \<open>_execute_condition_step\<close> which branch is executed:
  \<open>Some True\<close> for \<open>then\<close>, \<open>Some False\<close> for \<open>else\<close>, and \<open>None\<close> where the function
  returns a failure or the comparison raises, so that no branch is executed.
\<close>

definition selected_branch :: "condition \<Rightarrow> pydict \<Rightarrow> step_result list \<Rightarrow> bool option" where
  "selected_branch cond parameters results =
     (if cond_type cond = ''parameter'' then
        (case cond_parameter cond of
           None \<Rightarrow> None
         | Some p \<Rightarrow>
             (case map_of parameters p of
                None \<Rightarrow> None
              | Some actual_value \<Rightarrow>
                  (case evaluate_condition actual_value (cond_value cond)
                          (case cond_operator cond of Some operator \<Rightarrow> operator | None \<Rightarrow> ''eq'')
                   of Inl e \<Rightarrow> None | Inr b \<Rightarrow> Some b)))
      else if cond_type cond = ''result'' then
        (let step_index = (case cond_step cond of Some n \<Rightarrow> n | None \<Rightarrow> 1) - 1
         in if step_index < 0 \<or> step_index \<ge> int (length results) then None
            else if is_dict (sr_result (results ! nat step_index)) then
              Some (truthy (dict_get (the_dict (sr_result (results ! nat step_index)))
                              ''success'' (PBool False)))
            else None)
      else None)"

definition known_step_types :: "string set" where
  "known_step_types = {''jenkins'', ''ansible'', ''terraform'', ''condition'', ''notification''}"

definition known_operators :: "string set" where
  "known_operators =
     {''eq'', ''ne'', ''gt'', ''lt'', ''ge'', ''le'', ''contains'', ''not_contains''}"

section \<open>One iteration of the loop\<close>

text \<open>
  The body of the loop of \<open>_execute_workflow\<close> read as three functions of the step:
  \<open>execute_step\<close> is the chain of tests on the step type, \<open>step_outcome\<close> the result that
  is recorded (the returned value, or the failure built by the \<open>except\<close> clause), and
  \<open>entry_of\<close> the entry appended to \<open>results\<close>.  Lemma \<open>run_steps_Cons\<close> below shows that
  the loop is made of them.
\<close>

definition execute_step ::
  "'w integrations \<Rightarrow> pydict \<Rightarrow> step \<Rightarrow> step_result list \<Rightarrow> 'w \<Rightarrow> (exn + pyval) \<times> 'w" where
  "execute_step I parameters s results w =
     (let step_type = lower (s_type s);
          step_params = replace_parameters (s_parameters s) parameters
      in if step_type = ''jenkins'' then execute_jenkins_step I step_params w
         else if step_type = ''ansible'' then execute_ansible_step I step_params w
         else if step_type = ''terraform'' then execute_terraform_step I step_params w
         else if step_type = ''condition'' then execute_condition_step I s parameters results w
         else if step_type = ''notification'' then
           (Inr (execute_notification_step step_params), w)
         else (Inr (PStr (''Unknown step type: '' @ step_type)), w))"

definition step_outcome :: "exn + pyval \<Rightarrow> pyval" where
  "step_outcome x = (case x of Inr r \<Rightarrow> r | Inl e \<Rightarrow> failure (exn_str e))"

definition entry_of :: "nat \<Rightarrow> step \<Rightarrow> pyval \<Rightarrow> step_result" where
  "entry_of i s r =
     step_entry i (case s_name s of Some n \<Rightarrow> n | None \<Rightarrow> ''Step '' @ str_of_nat i)
       (lower (s_type s)) r"

definition name_of :: "string option \<Rightarrow> string" where
  "name_of name = (case name of Some n \<Rightarrow> n | None \<Rightarrow> ''Unnamed workflow'')"

section \<open>Example collaborators\<close>

text \<open>
  Integrations that record every call they receive: the state of the world is the list of
  the calls made so far.  The Jenkins job \<open>broken\<close> fails, every other call succeeds.
\<close>

type_synonym calls = "(string \<times> pyval list) list"

definition recording :: "calls integrations" where
  "recording =
     \<lparr>jenkins_trigger_job = (\<lambda>job job_params wait w.
        (Inr (if job = PStr ''broken'' then failure ''build failed'' else success ''build done''),
         w @ [(''jenkins'', [job, job_params, wait])])),
      ansible_run_playbook = (\<lambda>playbook inventory extra_vars w.
        (Inr (success ''playbook done''), w @ [(''ansible'', [playbook, inventory, extra_vars])])),
      terraform_run_terraform = (\<lambda>action workspace var_file vars_dict w.
        (Inr (success ''terraform done''),
         w @ [(''terraform'', [action, workspace, var_file, vars_dict])]))\<rparr>"

definition no_condition :: condition where
  "no_condition =
     \<lparr>cond_type = '''', cond_parameter = None, cond_value = PNone, cond_operator = None,
      cond_step = None\<rparr>"

text \<open>A Jenkins step that triggers the given job.\<close>

definition jenkins_step :: "string \<Rightarrow> string \<Rightarrow> step" where
  "jenkins_step name job = Step (Some name) ''jenkins'' [(''job'', PStr job)] no_condition [] []"

text \<open>A configuration, an extractor and a workflow manager for the message pipeline.\<close>

definition demo_config :: config where
  "demo_config =
     \<lparr>authorized_users = [''alice'', ''bob''],
      restricted_commands = [''destroy''],
      admin_users = [''alice''],
      approval_required = [''production''],
      confidence_threshold = 0.7\<rparr>"

definition demo_nlp :: "string \<Rightarrow> string \<times> pydict \<times> real" where
  "demo_nlp message =
     (if message = ''deploy api to staging''
      then (''deploy'', [(''service'', PStr ''api''), (''environment'', PStr ''staging'')], 0.92)
      else if message = ''deploy to staging''
      then (''deploy'', [(''environment'', PStr ''staging'')], 0.9)
      else (''unknown'', [], 0.1))"

definition demo_app :: "calls app" where
  "demo_app =
     \<lparr>app_config = demo_config,
      nlp_process = demo_nlp,
      app_templates = command_templates,
      wm_execute = (\<lambda>command w.
        (Inr (''executed '' @ cmd_action command), w @ [(''execute'', [])]))\<rparr>"

section \<open>Properties of placeholder substitution\<close>

lemma is_placeholder_iff: "is_placeholder s \<longleftrightarrow> (\<exists>n. s = ''${'' @ n @ ''}'')"
proof
  assume h: "is_placeholder s"
  then have t: "take 2 s = ''${''" and l: "last s = CHR ''}''"
    by (simp_all add: is_placeholder_def)
  from t have s: "s = ''${'' @ drop 2 s"
    by (metis append_take_drop_id)
  have ne: "drop 2 s \<noteq> []"
  proof
    assume "drop 2 s = []"
    with s have "s = ''${''" by simp
    with l show False by simp
  qed
  then have b: "butlast (drop 2 s) @ [last (drop 2 s)] = drop 2 s"
    by (rule append_butlast_last_id)
  from ne have "last (drop 2 s) = last s" by simp
  with b l have "drop 2 s = butlast (drop 2 s) @ ''}''" by metis
  with s have "s = ''${'' @ butlast (drop 2 s) @ ''}''" by simp
  then show "\<exists>n. s = ''${'' @ n @ ''}''" by blast
next
  assume "\<exists>n. s = ''${'' @ n @ ''}''"
  then show "is_placeholder s" by (auto simp: is_placeholder_def)
qed

lemma param_name_placeholder: "param_name (''${'' @ n @ ''}'') = n"
  by (simp add: param_name_def butlast_append)

lemma replace_as_map:
  "replace_parameters sp ps = map (\<lambda>kv. (fst kv, replace_item (snd kv) ps)) sp"
  "replace_item v ps = replace_item v ps"
  "replace_items l ps = map (\<lambda>x. replace_item x ps) l"
  by (induction sp ps and v ps and l ps rule: replace_parameters_replace_item_replace_items.induct) auto

lemma replace_item_placeholder:
  "replace_item (PStr (''${'' @ n @ ''}'')) ps =
     (case map_of ps n of Some v \<Rightarrow> v | None \<Rightarrow> PStr (''${'' @ n @ ''}''))"
proof -
  have "is_placeholder (''${'' @ n @ ''}'')" using is_placeholder_iff by blast
  moreover have "param_name (''${'' @ n @ ''}'') = n" by (rule param_name_placeholder)
  ultimately show ?thesis
    by (simp add: dict_has_def split: option.split)
qed

lemma replace_item_other:
  "\<not> (\<exists>n. s = ''${'' @ n @ ''}'') \<Longrightarrow> replace_item (PStr s) ps = PStr s"
  by (simp add: is_placeholder_iff)

text \<open>
  Claim C2.  Substitution treats every value of the step parameters with \<open>replace_item\<close>,
  keeping the keys and their order.  A string that is exactly \<open>${n}\<close> becomes the value
  bound to \<open>n\<close> in the command parameters, whatever that value is (it is inserted as it
  is and not scanned again), or stays as it is when \<open>n\<close> is not bound; any other string
  is unchanged; dictionaries and lists are traversed; other values are unchanged.  The
  functions are total: no case raises.
\<close>

theorem replace_parameters_exactly_once:
  "replace_parameters sp ps = map (\<lambda>kv. (fst kv, replace_item (snd kv) ps)) sp
   \<and> (\<forall>n. replace_item (PStr (''${'' @ n @ ''}'')) ps =
          (case map_of ps n of Some v \<Rightarrow> v | None \<Rightarrow> PStr (''${'' @ n @ ''}'')))
   \<and> (\<forall>s. \<not> (\<exists>n. s = ''${'' @ n @ ''}'') \<longrightarrow> replace_item (PStr s) ps = PStr s)
   \<and> (\<forall>d. replace_item (PDict d) ps = PDict (replace_parameters d ps))
   \<and> (\<forall>l. replace_item (PList l) ps = PList (map (\<lambda>x. replace_item x ps) l))
   \<and> replace_item PNone ps = PNone
   \<and> (\<forall>b. replace_item (PBool b) ps = PBool b)
   \<and> (\<forall>i. replace_item (PInt i) ps = PInt i)"
  using replace_as_map(1) [of sp ps] replace_as_map(3) [of _ ps]
    replace_item_placeholder [of _ ps] replace_item_other [of _ ps]
  by simp

theorem replace_parameters_exactly_once_witness:
  "replace_parameters
     [(''target'', PStr ''${a}''), (''note'', PStr ''see ${a}''), (''who'', PStr ''${c}''),
      (''hosts'', PList [PStr ''${b}'', PInt 2]), (''vars'', PDict [(''v'', PStr ''${a}'')])]
     [(''a'', PStr ''${b}''), (''b'', PStr ''x'')]
   = [(''target'', PStr ''${b}''), (''note'', PStr ''see ${a}''), (''who'', PStr ''${c}''),
      (''hosts'', PList [PStr ''x'', PInt 2]), (''vars'', PDict [(''v'', PStr ''${b}'')])]
   \<and> \<not> (\<exists>n. ''see ${a}'' = ''${'' @ n @ ''}'')"
  using replace_parameters_exactly_once
    [of "[(''target'', PStr ''${a}''), (''note'', PStr ''see ${a}''), (''who'', PStr ''${c}''),
      (''hosts'', PList [PStr ''${b}'', PInt 2]), (''vars'', PDict [(''v'', PStr ''${a}'')])]"
      "[(''a'', PStr ''${b}''), (''b'', PStr ''x'')]"]
  by (simp add: is_placeholder_def param_name_def dict_has_def)

section \<open>Properties of the command builder and of the authorization check\<close>

lemma map_of_store_all:
  "distinct (map fst items) \<Longrightarrow> map_of (store_all items d) = map_of d ++ map_of items"
proof (induction items arbitrary: d)
  case Nil
  then show ?case by (simp add: store_all_def)
next
  case (Cons kv items)
  obtain k v where kv: "kv = (k, v)" by (cases kv)
  from Cons.prems kv have k: "k \<notin> fst ` set items" and d: "distinct (map fst items)" by auto
  have "store_all (kv # items) d = store_all items (AList.update k v d)"
    by (simp add: store_all_def kv)
  then have "map_of (store_all (kv # items) d) = map_of (AList.update k v d) ++ map_of items"
    using Cons.IH [OF d] by simp
  also have "\<dots> = (map_of d)(k \<mapsto> v) ++ map_of items"
    by (simp only: update_conv')
  also have "\<dots> = map_of d ++ map_of (kv # items)"
  proof (rule ext)
    fix x
    from k have "map_of items k = None" by (simp add: map_of_eq_None_iff)
    then show "((map_of d)(k \<mapsto> v) ++ map_of items) x = (map_of d ++ map_of (kv # items)) x"
      by (cases "x = k") (simp_all add: kv map_add_def split: option.split)
  qed
  finally show ?case .
qed

lemma distinct_store_all:
  "distinct (map fst d) \<Longrightarrow> distinct (map fst (store_all items d))"
proof (induction items arbitrary: d)
  case Nil
  then show ?case by (simp add: store_all_def)
next
  case (Cons kv items)
  have "store_all (kv # items) d = store_all items (AList.update (fst kv) (snd kv) d)"
    by (simp add: store_all_def)
  with Cons show ?case by (simp add: distinct_update)
qed

text \<open>
  Claim C6.  When the intent has a template and the entities (a dictionary, so with
  distinct keys) bind every required entity, \<open>parse\<close> returns a command with the
  template's action whose parameters are the defaults overridden by the entities: an
  entity wins over a default of the same name.  For the intent \<open>deploy\<close> with the
  entities \<open>service = api\<close> and \<open>environment = production\<close> the command has the action
  \<open>deploy\<close>, the parameters \<open>environment = production\<close>, \<open>version = latest\<close>,
  \<open>service = api\<close> and the workflow \<open>deploy_workflow.yaml\<close>.
\<close>

theorem parse_defaults_overridden:
  "(map_of templates intent = Some t
      \<and> (\<forall>r \<in> set (tpl_required_entities t). dict_has entities r)
      \<and> distinct (map fst (tpl_defaults t)) \<and> distinct (map fst entities)
    \<longrightarrow> (\<exists>c. parse templates intent entities = Some c
           \<and> cmd_action c = tpl_action t
           \<and> map_of (cmd_parameters c) = map_of (tpl_defaults t) ++ map_of entities
           \<and> distinct (map fst (cmd_parameters c))))
   \<and> parse command_templates ''deploy''
        [(''service'', PStr ''api''), (''environment'', PStr ''production'')]
      = Some \<lparr>cmd_action = ''deploy'',
              cmd_parameters = [(''environment'', PStr ''production''),
                                (''version'', PStr ''latest''), (''service'', PStr ''api'')],
              cmd_workflow = Some ''deploy_workflow.yaml''\<rparr>"
proof (rule conjI, rule impI)
  assume h: "map_of templates intent = Some t
      \<and> (\<forall>r \<in> set (tpl_required_entities t). dict_has entities r)
      \<and> distinct (map fst (tpl_defaults t)) \<and> distinct (map fst entities)"
  then have req: "\<not> list_ex (\<lambda>required. \<not> dict_has entities required) (tpl_required_entities t)"
    by (simp add: list_ex_iff)
  have d0: "map_of (store_all (tpl_defaults t) []) = map_of (tpl_defaults t)"
    using h by (simp add: map_of_store_all)
  have "map_of (store_all entities (store_all (tpl_defaults t) []))
        = map_of (tpl_defaults t) ++ map_of entities"
    using h d0 by (simp add: map_of_store_all)
  moreover have "distinct (map fst (store_all entities (store_all (tpl_defaults t) [])))"
    by (simp add: distinct_store_all)
  ultimately show "\<exists>c. parse templates intent entities = Some c
           \<and> cmd_action c = tpl_action t
           \<and> map_of (cmd_parameters c) = map_of (tpl_defaults t) ++ map_of entities
           \<and> distinct (map fst (cmd_parameters c))"
    using h req by (simp add: parse_def)
next
  show "parse command_templates ''deploy''
        [(''service'', PStr ''api''), (''environment'', PStr ''production'')]
      = Some \<lparr>cmd_action = ''deploy'',
              cmd_parameters = [(''environment'', PStr ''production''),
                                (''version'', PStr ''latest''), (''service'', PStr ''api'')],
              cmd_workflow = Some ''deploy_workflow.yaml''\<rparr>"
    by (simp add: parse_def command_templates_def store_all_def dict_has_def)
qed

theorem parse_defaults_overridden_witness:
  "\<exists>c. parse command_templates ''scale'' [(''service'', PStr ''web''), (''count'', PStr ''3'')] = Some c
       \<and> cmd_action c = ''scale''
       \<and> map_of (cmd_parameters c) ''count'' = Some (PStr ''3'')
       \<and> map_of (cmd_parameters c) ''direction'' = Some (PStr ''up'')
       \<and> map_of (cmd_parameters c) ''service'' = Some (PStr ''web'')"
proof -
  let ?t = "\<lparr>tpl_action = ''scale'',
        tpl_required_entities = [''service''],
        tpl_optional_entities = [''count'', ''direction'', ''environment''],
        tpl_defaults = [(''environment'', PStr ''development''), (''count'', PStr ''1''),
                        (''direction'', PStr ''up'')],
        tpl_workflow = Some ''scale_workflow.yaml''\<rparr>"
  let ?e = "[(''service'', PStr ''web''), (''count'', PStr ''3'')]"
  have "map_of command_templates ''scale'' = Some ?t
      \<and> (\<forall>r \<in> set (tpl_required_entities ?t). dict_has ?e r)
      \<and> distinct (map fst (tpl_defaults ?t)) \<and> distinct (map fst ?e)"
    by (simp add: command_templates_def dict_has_def)
  with parse_defaults_overridden [of command_templates "''scale''" ?t ?e]
  obtain c where c: "parse command_templates ''scale'' ?e = Some c"
    "cmd_action c = tpl_action ?t"
    "map_of (cmd_parameters c) = map_of (tpl_defaults ?t) ++ map_of ?e"
    by blast
  then show ?thesis by (simp add: map_add_def)
qed

text \<open>
  Claim C9.  A user outside the authorized users is denied whatever the message says: the
  check returns false before it looks at the message, for any two messages the outcome is
  the same, and \<open>process_message\<close> answers with the same denial and leaves the world
  untouched.
\<close>

theorem unauthorized_user_denied:
  "user_id \<notin> set (authorized_users (app_config app)) \<Longrightarrow>
     \<not> is_user_authorized (app_config app) user_id m1
     \<and> is_user_authorized (app_config app) user_id m1
         = is_user_authorized (app_config app) user_id m2
     \<and> process_message app m1 user_id c1 w = (not_authorized_text, w)
     \<and> process_message app m2 user_id c2 w = (not_authorized_text, w)"
  by (simp add: is_user_authorized_def process_message_def)

theorem unauthorized_user_denied_witness:
  "''mallory'' \<notin> set (authorized_users (app_config demo_app))
   \<and> process_message demo_app ''deploy api to staging'' ''mallory'' ''ops'' [] = (not_authorized_text, [])
   \<and> process_message demo_app ''destroy everything'' ''mallory'' ''ops'' [] = (not_authorized_text, [])"
  using unauthorized_user_denied [of "''mallory''" demo_app "''deploy api to staging''"
      "''destroy everything''" "''ops''" "[]" "''ops''"]
  by (simp add: demo_app_def demo_config_def)

section \<open>Properties of the step execution engine\<close>

declare run_steps.simps(2) [simp del]
declare execute_condition_step.simps [simp del]
declare execute_workflow.simps [simp del]

lemma step_failed_failure: "step_failed (failure m)"
  by (simp add: step_failed_def failure_def dict_get_def)

lemma step_failed_success: "\<not> step_failed (success m)"
  by (simp add: step_failed_def success_def dict_get_def)

lemma step_failed_text: "\<not> step_failed (PStr m)"
  by (simp add: step_failed_def)

lemma run_branch_if: "(if th \<noteq> [] then run_branch I th ps w else w) = run_branch I th ps w"
  by (cases th) simp_all

lemma loop_body:
  "(case p of
      (Inr r, w') \<Rightarrow>
        (let results' = rs @ [E r]
         in if step_failed r then (results', w') else K results' w')
    | (Inl e, w') \<Rightarrow> (rs @ [E (failure (exn_str e))], w'))
   = (case p of
        (x, w') \<Rightarrow>
          if step_failed (step_outcome x) then (rs @ [E (step_outcome x)], w')
          else K (rs @ [E (step_outcome x)]) w')"
proof (cases p)
  case (Pair x w')
  show ?thesis
  proof (cases x)
    case (Inl e)
    with Pair show ?thesis by (simp add: step_outcome_def step_failed_failure)
  next
    case (Inr r)
    with Pair show ?thesis by (simp add: step_outcome_def Let_def)
  qed
qed

lemma run_steps_Cons:
  "run_steps I ps i (s # rest) rs w =
     (case execute_step I ps s rs w of
        (x, w') \<Rightarrow>
          if step_failed (step_outcome x) then (rs @ [entry_of i s (step_outcome x)], w')
          else run_steps I ps (Suc i) rest (rs @ [entry_of i s (step_outcome x)]) w')"
proof (cases s)
  case (Step name ty sp cond th el)
  have "run_steps I ps i (s # rest) rs w =
     (case execute_step I ps s rs w of
        (Inr r, w') \<Rightarrow>
          (let results' = rs @ [entry_of i s r]
           in if step_failed r then (results', w')
              else run_steps I ps (Suc i) rest results' w')
      | (Inl e, w') \<Rightarrow> (rs @ [entry_of i s (failure (exn_str e))], w'))"
    by (simp only: Step run_steps.simps execute_step_def entry_of_def Let_def step.sel)
  then show ?thesis by (simp only: loop_body)
qed


lemma execute_condition_step_selected:
  assumes "selected_branch cond ps rs = Some b"
  shows "execute_condition_step I (Step name ty sp cond th el) ps rs w =
     (Inr (success (if b then ''Condition evaluated to true''
                    else ''Condition evaluated to false'')),
      run_branch I (if b then th else el) ps w)"
proof (cases "cond_type cond = ''parameter''")
  case True
  with assms obtain p a where p: "cond_parameter cond = Some p" and a: "map_of ps p = Some a"
    and ev: "evaluate_condition a (cond_value cond)
               (case cond_operator cond of Some operator \<Rightarrow> operator | None \<Rightarrow> ''eq'') = Inr b"
    by (auto simp: selected_branch_def split: option.splits sum.splits)
  show ?thesis
    using True p a ev by (simp add: execute_condition_step.simps dict_has_def run_branch_if)
next
  case False
  with assms have r: "cond_type cond = ''result''"
    by (simp add: selected_branch_def split: if_splits)
  let ?k = "(case cond_step cond of Some n \<Rightarrow> n | None \<Rightarrow> 1) - 1"
  from assms False r have k: "\<not> (?k < 0 \<or> int (length rs) \<le> ?k)"
    by (auto simp: selected_branch_def Let_def split: if_splits)
  with assms False r have d: "is_dict (sr_result (rs ! nat ?k))"
    by (auto simp: selected_branch_def Let_def split: if_splits)
  with assms False r k
  have b: "b = truthy (dict_get (the_dict (sr_result (rs ! nat ?k))) ''success'' (PBool False))"
    by (auto simp: selected_branch_def Let_def split: if_splits)
  show ?thesis
    using False r k d b by (simp add: execute_condition_step.simps Let_def run_branch_if)
qed

lemma execute_condition_step_not_selected:
  assumes "selected_branch cond ps rs = None"
  shows "snd (execute_condition_step I (Step name ty sp cond th el) ps rs w) = w
     \<and> step_failed (step_outcome (fst (execute_condition_step I (Step name ty sp cond th el) ps rs w)))"
proof (cases "cond_type cond = ''parameter''")
  case True
  show ?thesis
  proof (cases "cond_parameter cond")
    case None
    with True show ?thesis
      by (simp add: execute_condition_step.simps step_outcome_def step_failed_failure)
  next
    case (Some p)
    show ?thesis
    proof (cases "map_of ps p")
      case None
      with True Some show ?thesis
        by (simp add: execute_condition_step.simps dict_has_def step_outcome_def
              step_failed_failure)
    next
      case (Some a)
      with assms True \<open>cond_parameter cond = Some p\<close>
      obtain e where "evaluate_condition a (cond_value cond)
               (case cond_operator cond of Some operator \<Rightarrow> operator | None \<Rightarrow> ''eq'') = Inl e"
        by (auto simp: selected_branch_def split: sum.splits)
      with True Some \<open>cond_parameter cond = Some p\<close> show ?thesis
        by (simp add: execute_condition_step.simps dict_has_def step_outcome_def
              step_failed_failure)
    qed
  qed
next
  case False
  show ?thesis
  proof (cases "cond_type cond = ''result''")
    case r: True
    let ?k = "(case cond_step cond of Some n \<Rightarrow> n | None \<Rightarrow> 1) - 1"
    show ?thesis
    proof (cases "?k < 0 \<or> int (length rs) \<le> ?k")
      case True
      with False r show ?thesis
        by (simp add: execute_condition_step.simps Let_def step_outcome_def step_failed_failure)
    next
      case k: False
      with assms False r have "\<not> is_dict (sr_result (rs ! nat ?k))"
        by (auto simp: selected_branch_def Let_def split: if_splits)
      with False r k show ?thesis
        by (simp add: execute_condition_step.simps Let_def step_outcome_def step_failed_failure)
    qed
  next
    case nr: False
    with False show ?thesis
      by (simp add: execute_condition_step.simps step_outcome_def step_failed_failure)
  qed
qed


lemma sr_result_entry_of: "sr_result (entry_of i s r) = r"
  by (simp add: entry_of_def step_entry_def)

lemma entry_of_sr_result: "entry_of i s (sr_result (entry_of i s r)) = entry_of i s r"
  by (simp add: sr_result_entry_of)

lemma run_steps_shape:
  "\<exists>new. fst (run_steps I ps i steps rs0 w) = rs0 @ new
     \<and> length new \<le> length steps
     \<and> (\<forall>k<length new. new ! k = entry_of (i + k) (steps ! k) (sr_result (new ! k)))
     \<and> (\<forall>k<length new. \<exists>wk. sr_result (new ! k) =
            step_outcome (fst (execute_step I ps (steps ! k) (rs0 @ take k new) wk)))
     \<and> (\<forall>k<length new. step_failed (sr_result (new ! k)) \<longrightarrow> Suc k = length new)
     \<and> (length new < length steps \<longrightarrow>
            (\<exists>k. Suc k = length new \<and> step_failed (sr_result (new ! k))))
     \<and> run_steps I ps i (take (length new) steps) rs0 w = run_steps I ps i steps rs0 w"
proof (induction steps arbitrary: i rs0 w)
  case Nil
  show ?case by (rule exI [of _ "[]"]) simp
next
  case (Cons s rest)
  obtain x w1 where ex: "execute_step I ps s rs0 w = (x, w1)"
    by (cases "execute_step I ps s rs0 w")
  define r where "r = step_outcome x"
  define e where "e = entry_of i s r"
  have re: "sr_result e = r" by (simp add: e_def sr_result_entry_of)
  have r0: "r = step_outcome (fst (execute_step I ps s rs0 w))" by (simp add: ex r_def)
  show ?case
  proof (cases "step_failed r")
    case True
    have run: "run_steps I ps i (s # rest) rs0 w = (rs0 @ [e], w1)"
      using ex True by (simp add: run_steps_Cons r_def e_def)
    have one: "run_steps I ps i [s] rs0 w = (rs0 @ [e], w1)"
      using ex True by (simp add: run_steps_Cons r_def e_def)
    have "fst (run_steps I ps i (s # rest) rs0 w) = rs0 @ [e]" using run by simp
    moreover have "length [e] \<le> length (s # rest)" by simp
    moreover have "\<forall>k<length [e]. [e] ! k = entry_of (i + k) ((s # rest) ! k) (sr_result ([e] ! k))"
      by (simp add: re) (simp add: e_def)
    moreover have "\<forall>k<length [e]. \<exists>wk. sr_result ([e] ! k) =
            step_outcome (fst (execute_step I ps ((s # rest) ! k) (rs0 @ take k [e]) wk))"
      using r0 by (auto simp: re)
    moreover have "\<forall>k<length [e]. step_failed (sr_result ([e] ! k)) \<longrightarrow> Suc k = length [e]"
      by simp
    moreover have "length [e] < length (s # rest) \<longrightarrow>
            (\<exists>k. Suc k = length [e] \<and> step_failed (sr_result ([e] ! k)))"
      using True by (simp add: re)
    moreover have "run_steps I ps i (take (length [e]) (s # rest)) rs0 w
                   = run_steps I ps i (s # rest) rs0 w"
      using run one by simp
    ultimately show ?thesis by (intro exI [of _ "[e]"] conjI)
  next
    case False
    have run: "run_steps I ps i (s # rest) rs0 w = run_steps I ps (Suc i) rest (rs0 @ [e]) w1"
      using ex False by (simp add: run_steps_Cons r_def e_def)
    from Cons.IH [of "Suc i" "rs0 @ [e]" w1]
    obtain new where n1: "fst (run_steps I ps (Suc i) rest (rs0 @ [e]) w1) = (rs0 @ [e]) @ new"
      and n2: "length new \<le> length rest"
      and n3: "\<forall>k<length new. new ! k = entry_of (Suc i + k) (rest ! k) (sr_result (new ! k))"
      and n4: "\<forall>k<length new. \<exists>wk. sr_result (new ! k) =
            step_outcome (fst (execute_step I ps (rest ! k) ((rs0 @ [e]) @ take k new) wk))"
      and n5: "\<forall>k<length new. step_failed (sr_result (new ! k)) \<longrightarrow> Suc k = length new"
      and n6: "length new < length rest \<longrightarrow>
            (\<exists>k. Suc k = length new \<and> step_failed (sr_result (new ! k)))"
      and n7: "run_steps I ps (Suc i) (take (length new) rest) (rs0 @ [e]) w1
               = run_steps I ps (Suc i) rest (rs0 @ [e]) w1"
      by blast
    let ?new = "e # new"
    have "fst (run_steps I ps i (s # rest) rs0 w) = rs0 @ ?new" using run n1 by simp
    moreover have "length ?new \<le> length (s # rest)" using n2 by simp
    moreover have "\<forall>k<length ?new. ?new ! k = entry_of (i + k) ((s # rest) ! k) (sr_result (?new ! k))"
    proof (intro allI impI)
      fix k assume "k < length ?new"
      show "?new ! k = entry_of (i + k) ((s # rest) ! k) (sr_result (?new ! k))"
      proof (cases k)
        case 0
        then show ?thesis by (simp add: re) (simp add: e_def)
      next
        case (Suc j)
        with \<open>k < length ?new\<close> n3 show ?thesis by simp
      qed
    qed
    moreover have "\<forall>k<length ?new. \<exists>wk. sr_result (?new ! k) =
            step_outcome (fst (execute_step I ps ((s # rest) ! k) (rs0 @ take k ?new) wk))"
    proof (intro allI impI)
      fix k assume "k < length ?new"
      show "\<exists>wk. sr_result (?new ! k) =
            step_outcome (fst (execute_step I ps ((s # rest) ! k) (rs0 @ take k ?new) wk))"
      proof (cases k)
        case 0
        then show ?thesis using r0 by (auto simp: re)
      next
        case (Suc j)
        with \<open>k < length ?new\<close> n4 show ?thesis by simp
      qed
    qed
    moreover have "\<forall>k<length ?new. step_failed (sr_result (?new ! k)) \<longrightarrow> Suc k = length ?new"
    proof (intro allI impI)
      fix k assume "k < length ?new" and f: "step_failed (sr_result (?new ! k))"
      show "Suc k = length ?new"
      proof (cases k)
        case 0
        with f False show ?thesis by (simp add: re)
      next
        case (Suc j)
        with \<open>k < length ?new\<close> f n5 show ?thesis by simp
      qed
    qed
    moreover have "length ?new < length (s # rest) \<longrightarrow>
            (\<exists>k. Suc k = length ?new \<and> step_failed (sr_result (?new ! k)))"
    proof
      assume "length ?new < length (s # rest)"
      then have "length new < length rest" by simp
      with n6 obtain j where j: "Suc j = length new" "step_failed (sr_result (new ! j))" by blast
      from j have "Suc (Suc j) = length ?new \<and> step_failed (sr_result (?new ! Suc j))"
        by (metis length_Cons nth_Cons_Suc)
      then show "\<exists>k. Suc k = length ?new \<and> step_failed (sr_result (?new ! k))" by blast
    qed
    moreover have "run_steps I ps i (take (length ?new) (s # rest)) rs0 w
                   = run_steps I ps i (s # rest) rs0 w"
    proof -
      have "run_steps I ps i (take (length ?new) (s # rest)) rs0 w
            = run_steps I ps (Suc i) (take (length new) rest) (rs0 @ [e]) w1"
        using ex False by (simp add: run_steps_Cons r_def e_def)
      with n7 run show ?thesis by simp
    qed
    ultimately show ?thesis by (intro exI [of _ ?new] conjI)
  qed
qed

lemma all_success_iff: "all_success rs = (\<forall>r\<in>set rs. \<not> step_failed (sr_result r))"
  by (induction rs) auto

lemma snd_execute_workflow:
  "snd (execute_workflow I (Workflow name steps) ps w) = snd (run_steps I ps 1 steps [] w)"
  by (cases "steps = []") (simp_all add: execute_workflow.simps split: prod.split)

lemma run_branch_Cons:
  "run_branch I (s # rest) ps w = run_branch I rest ps (snd (run_steps I ps 1 [s] [] w))"
  by (simp add: snd_execute_workflow)

lemma execute_workflow_run_steps:
  assumes "run_steps I ps 1 steps [] w = (results, w')" and "steps \<noteq> []"
  shows "execute_workflow I (Workflow name steps) ps w
         = (format_workflow_result (name_of name) results, w')"
  using assms by (simp add: execute_workflow.simps name_of_def)

lemma run_steps_top:
  assumes "run_steps I ps i steps [] w = (results, w')"
  shows "length results \<le> length steps"
    and "\<forall>k<length results. results ! k = entry_of (i + k) (steps ! k) (sr_result (results ! k))"
    and "\<forall>k<length results. \<exists>wk. sr_result (results ! k) =
           step_outcome (fst (execute_step I ps (steps ! k) (take k results) wk))"
    and "\<forall>k<length results. step_failed (sr_result (results ! k)) \<longrightarrow> Suc k = length results"
    and "run_steps I ps i (take (length results) steps) [] w = (results, w')"
proof -
  from run_steps_shape [of I ps i steps "[]" w]
  obtain new where n: "fst (run_steps I ps i steps [] w) = [] @ new"
    and n2: "length new \<le> length steps"
    and n3: "\<forall>k<length new. new ! k = entry_of (i + k) (steps ! k) (sr_result (new ! k))"
    and n4: "\<forall>k<length new. \<exists>wk. sr_result (new ! k) =
            step_outcome (fst (execute_step I ps (steps ! k) ([] @ take k new) wk))"
    and n5: "\<forall>k<length new. step_failed (sr_result (new ! k)) \<longrightarrow> Suc k = length new"
    and n7: "run_steps I ps i (take (length new) steps) [] w = run_steps I ps i steps [] w"
    by blast
  from n assms have eq: "new = results" by simp
  show "length results \<le> length steps" using n2 eq by simp
  show "\<forall>k<length results. results ! k = entry_of (i + k) (steps ! k) (sr_result (results ! k))"
    using n3 eq by simp
  show "\<forall>k<length results. \<exists>wk. sr_result (results ! k) =
           step_outcome (fst (execute_step I ps (steps ! k) (take k results) wk))"
    using n4 eq by simp
  show "\<forall>k<length results. step_failed (sr_result (results ! k)) \<longrightarrow> Suc k = length results"
    using n5 eq by simp
  show "run_steps I ps i (take (length results) steps) [] w = (results, w')"
    using n7 eq assms by simp
qed

text \<open>
  Claim C1.  When the entry recorded for a step is a failure (a result dictionary whose
  \<open>success\<close> is false, which is also what the loop records for an exception), it is the
  last entry of the report and the only failure in it, and the steps declared after it
  play no part: the workflow cut after that step yields the same entries, the same report
  and the same state of the world, so none of the later steps was executed.
\<close>

theorem halts_at_first_failure:
  assumes "run_steps I ps 1 steps [] w = (results, w')"
    and "k < length results"
    and "step_failed (sr_result (results ! k))"
  shows "length results = Suc k \<and> Suc k \<le> length steps
     \<and> (\<forall>j<k. \<not> step_failed (sr_result (results ! j)))
     \<and> run_steps I ps 1 (take (Suc k) steps) [] w = (results, w')
     \<and> execute_workflow I (Workflow name (take (Suc k) steps)) ps w
         = execute_workflow I (Workflow name steps) ps w"
proof -
  note len = run_steps_top(1) [OF assms(1)]
  note last = run_steps_top(4) [OF assms(1)]
  note cut = run_steps_top(5) [OF assms(1)]
  from last assms(2,3) have k: "length results = Suc k" by auto
  have first: "\<forall>j<k. \<not> step_failed (sr_result (results ! j))"
  proof (intro allI impI notI)
    fix j assume j: "j < k" and f: "step_failed (sr_result (results ! j))"
    from j k have "j < length results" by simp
    with last f have "Suc j = length results" by blast
    with k j show False by simp
  qed
  from k len have ne: "steps \<noteq> []" "take (Suc k) steps \<noteq> []" by auto
  from cut k have cut': "run_steps I ps 1 (take (Suc k) steps) [] w = (results, w')" by simp
  have "execute_workflow I (Workflow name (take (Suc k) steps)) ps w
         = execute_workflow I (Workflow name steps) ps w"
    using execute_workflow_run_steps [OF cut' ne(2)] execute_workflow_run_steps [OF assms(1) ne(1)]
    by simp
  with k len first cut' show ?thesis by simp
qed

text \<open>
  Claim C7, amended.  The flag of the report is the conjunction over the recorded entries
  of "the result is not a failure" (a result that is no dictionary, such as the text
  recorded for an unknown step type, counts as success).  The entries are those of the
  top-level steps that were executed, in the order of the workflow and numbered from 1:
  entry \<open>k\<close> carries the number, name and type of step \<open>k\<close> and the outcome of executing
  it with the entries before it; the steps after the last entry were not executed.  The
  report is the rendering of exactly these entries.  (The steps run inside a branch of a
  condition have no entry.)
\<close>

theorem report_covers_top_level_steps:
  assumes "run_steps I ps 1 steps [] w = (results, w')"
  shows "all_success results = (\<forall>r\<in>set results. \<not> step_failed (sr_result r))
     \<and> length results \<le> length steps
     \<and> (\<forall>k<length results.
           results ! k = entry_of (Suc k) (steps ! k) (sr_result (results ! k)))
     \<and> (\<forall>k<length results. \<exists>wk. sr_result (results ! k) =
           step_outcome (fst (execute_step I ps (steps ! k) (take k results) wk)))
     \<and> run_steps I ps 1 (take (length results) steps) [] w = (results, w')
     \<and> (steps \<noteq> [] \<longrightarrow>
           execute_workflow I (Workflow name steps) ps w
           = (format_workflow_result (name_of name) results, w'))"
proof -
  have "steps \<noteq> [] \<longrightarrow>
           execute_workflow I (Workflow name steps) ps w
           = (format_workflow_result (name_of name) results, w')"
    using execute_workflow_run_steps [OF assms, of name] by blast
  moreover have "\<forall>k<length results.
           results ! k = entry_of (Suc k) (steps ! k) (sr_result (results ! k))"
    using run_steps_top(2) [OF assms] by simp
  ultimately show ?thesis
    using all_success_iff [of results] run_steps_top(1,3,5) [OF assms]
    by blast
qed

text \<open>
  Claim C3, amended.  A step whose type is none of \<open>jenkins\<close>, \<open>ansible\<close>, \<open>terraform\<close>,
  \<open>condition\<close>, \<open>notification\<close> raises nothing and calls no integration: the text
  \<open>Unknown step type: <type>\<close> is recorded as its result.  That entry is not a failure,
  and the workflow goes on with the next step.
\<close>

theorem unknown_step_type_recorded_and_skipped:
  assumes "lower ty \<notin> known_step_types"
  shows "execute_step I ps (Step name ty sp cond th el) rs w
           = (Inr (PStr (''Unknown step type: '' @ lower ty)), w)
     \<and> \<not> step_failed (PStr (''Unknown step type: '' @ lower ty))
     \<and> run_steps I ps i (Step name ty sp cond th el # rest) rs w
         = run_steps I ps (Suc i) rest
             (rs @ [entry_of i (Step name ty sp cond th el)
                      (PStr (''Unknown step type: '' @ lower ty))]) w"
proof -
  have ex: "execute_step I ps (Step name ty sp cond th el) rs w
           = (Inr (PStr (''Unknown step type: '' @ lower ty)), w)"
    using assms by (simp add: execute_step_def known_step_types_def Let_def)
  then show ?thesis
    by (simp add: run_steps_Cons step_outcome_def step_failed_text)
qed

text \<open>
  Claim C5, amended.  When the condition of a condition step selects a branch (the
  parameter is bound and the comparison does not raise, or the earlier step referred to
  exists and its result is a dictionary), the result of the step is a success whose
  message says whether the condition was true or false, the steps of the selected branch
  are run, and the parent sequence goes on with its next step whatever happened inside
  the branch.
\<close>

theorem condition_step_reports_selected_branch:
  assumes "lower ty = ''condition''"
    and "selected_branch cond ps rs = Some b"
  shows "execute_condition_step I (Step name ty sp cond th el) ps rs w
           = (Inr (success (if b then ''Condition evaluated to true''
                            else ''Condition evaluated to false'')),
              run_branch I (if b then th else el) ps w)
     \<and> \<not> step_failed (success (if b then ''Condition evaluated to true''
                                 else ''Condition evaluated to false''))
     \<and> run_steps I ps i (Step name ty sp cond th el # rest) rs w
         = run_steps I ps (Suc i) rest
             (rs @ [entry_of i (Step name ty sp cond th el)
                      (success (if b then ''Condition evaluated to true''
                                else ''Condition evaluated to false''))])
             (run_branch I (if b then th else el) ps w)"
proof -
  note c = execute_condition_step_selected [OF assms(2), of I name ty sp th el w]
  have "execute_step I ps (Step name ty sp cond th el) rs w
        = execute_condition_step I (Step name ty sp cond th el) ps rs w"
    using assms(1) by (simp add: execute_step_def Let_def)
  with c show ?thesis
    by (simp add: run_steps_Cons step_outcome_def step_failed_success)
qed

text \<open>
  Claim C10.  An operator outside \<open>eq\<close>, \<open>ne\<close>, \<open>gt\<close>, \<open>lt\<close>, \<open>ge\<close>, \<open>le\<close>, \<open>contains\<close>,
  \<open>not_contains\<close> makes the evaluation return false for any two values, without raising.
  A condition step that compares a bound parameter with such an operator therefore runs
  its \<open>else\<close> branch and reports a success, \<open>Condition evaluated to false\<close>.
\<close>

theorem unknown_operator_is_false:
  assumes "operator \<notin> known_operators"
  shows "evaluate_condition actual expected operator = Inr False
     \<and> (cond_type cond = ''parameter'' \<and> cond_parameter cond = Some p
          \<and> map_of ps p = Some actual \<and> cond_operator cond = Some operator
        \<longrightarrow> execute_condition_step I (Step name ty sp cond th el) ps rs w
              = (Inr (success ''Condition evaluated to false''), run_branch I el ps w)
            \<and> \<not> step_failed (success ''Condition evaluated to false''))"
proof -
  have ev: "\<And>a e. evaluate_condition a e operator = Inr False"
    using assms by (simp add: evaluate_condition_def known_operators_def)
  show ?thesis
  proof (intro conjI impI)
    show "evaluate_condition actual expected operator = Inr False" by (rule ev)
  next
    assume h: "cond_type cond = ''parameter'' \<and> cond_parameter cond = Some p
          \<and> map_of ps p = Some actual \<and> cond_operator cond = Some operator"
    then have "selected_branch cond ps rs = Some False"
      by (simp add: selected_branch_def ev)
    from execute_condition_step_selected [OF this, of I name ty sp th el w]
    show "execute_condition_step I (Step name ty sp cond th el) ps rs w
              = (Inr (success ''Condition evaluated to false''), run_branch I el ps w)"
      by simp
  next
    show "\<not> step_failed (success ''Condition evaluated to false'')"
      by (rule step_failed_success)
  qed
qed

text \<open>
  Claim C4, amended.  A condition step that compares the parameter \<open>count\<close>, bound to the
  text \<open>3\<close>, with the value \<open>3\<close> by \<open>eq\<close> selects its \<open>then\<close> branch: the steps of that
  branch are run in order, each as a workflow of its own whose report is dropped, and no
  step of the \<open>else\<close> branch is run (the outcome does not depend on that branch).  The
  report of the workflow gets one entry for the condition step, a success with the message
  \<open>Condition evaluated to true\<close>, and no entry for the steps of the branch.
\<close>

theorem count_condition_selects_then:
  assumes "lower ty = ''condition''"
    and "cond_type cond = ''parameter''" and "cond_parameter cond = Some ''count''"
    and "cond_value cond = PStr ''3''" and "cond_operator cond = Some ''eq''"
    and "map_of ps ''count'' = Some (PStr ''3'')"
  shows "execute_condition_step I (Step name ty sp cond th el) ps rs w
           = (Inr (success ''Condition evaluated to true''), run_branch I th ps w)
     \<and> run_steps I ps i [Step name ty sp cond th el] rs w
         = (rs @ [step_entry i (case name of Some n \<Rightarrow> n | None \<Rightarrow> ''Step '' @ str_of_nat i)
                    ''condition'' (success ''Condition evaluated to true'')],
            run_branch I th ps w)"
proof -
  have "selected_branch cond ps rs = Some True"
    using assms(2-6) by (simp add: selected_branch_def evaluate_condition_def)
  from execute_condition_step_selected [OF this, of I name ty sp th el w]
  have c: "execute_condition_step I (Step name ty sp cond th el) ps rs w
           = (Inr (success ''Condition evaluated to true''), run_branch I th ps w)"
    by simp
  have "execute_step I ps (Step name ty sp cond th el) rs w
        = execute_condition_step I (Step name ty sp cond th el) ps rs w"
    using assms(1) by (simp add: execute_step_def Let_def)
  with c show ?thesis
    using assms(1)
    by (simp add: run_steps_Cons step_outcome_def step_failed_success entry_of_def)
qed

text \<open>
  Claim C8, amended.  When the entities extracted from a message lack an entity that the
  template of the intent requires, \<open>parse\<close> returns no command.  In \<open>process_message\<close>
  the authorization check comes first: a message that fails it is answered with the
  denial.  A message that passes it and whose confidence reaches the threshold is answered
  with the text that the command was not understood; the approval check and the workflow
  manager are not reached, and the world is unchanged.
\<close>

theorem missing_entity_rejected_after_authorization:
  assumes "nlp_process app message = (intent, entities, confidence)"
    and "map_of (app_templates app) intent = Some t"
    and "r \<in> set (tpl_required_entities t)"
    and "\<not> dict_has entities r"
  shows "parse (app_templates app) intent entities = None
     \<and> process_message app message user_id channel_id w
         = (if \<not> is_user_authorized (app_config app) user_id message
            then (not_authorized_text, w)
            else if confidence < confidence_threshold (app_config app)
            then (not_sure_text, w)
            else (not_understood_text, w))"
proof -
  have "list_ex (\<lambda>required. \<not> dict_has entities required) (tpl_required_entities t)"
    using assms(3,4) by (auto simp: list_ex_iff)
  then have p: "parse (app_templates app) intent entities = None"
    using assms(2) by (simp add: parse_def)
  then show ?thesis using assms(1) by (simp add: process_message_def)
qed

section \<open>The properties at concrete workflows and messages\<close>

lemmas engine_eval =
  run_steps_Cons execute_step_def execute_jenkins_step_def execute_condition_step.simps
  run_branch_Cons snd_execute_workflow recording_def jenkins_step_def no_condition_def lower_def lower_char_def
  dict_get_def dict_has_def step_failed_def step_outcome_def entry_of_def step_entry_def
  failure_def success_def evaluate_condition_def known_step_types_def known_operators_def
  selected_branch_def is_placeholder_def param_name_def char_of_eq_iff Let_def

text \<open>
  A workflow of three Jenkins steps whose second job fails: the report has two entries,
  two calls reach Jenkins, and the workflow without its third step gives the same report.
\<close>

theorem halts_at_first_failure_witness:
  "run_steps recording [] 1
     [jenkins_step ''build'' ''api-build'', jenkins_step ''deploy'' ''broken'',
      jenkins_step ''smoke'' ''api-smoke''] [] []
   = ([\<lparr>sr_step = 1, sr_name = ''build'', sr_type = ''jenkins'',
        sr_result = success ''build done''\<rparr>,
       \<lparr>sr_step = 2, sr_name = ''deploy'', sr_type = ''jenkins'',
        sr_result = failure ''build failed''\<rparr>],
      [(''jenkins'', [PStr ''api-build'', PDict [], PBool True]),
       (''jenkins'', [PStr ''broken'', PDict [], PBool True])])
   \<and> step_failed (failure ''build failed'')
   \<and> execute_workflow recording (Workflow (Some ''release'')
         [jenkins_step ''build'' ''api-build'', jenkins_step ''deploy'' ''broken'']) [] []
     = execute_workflow recording (Workflow (Some ''release'')
         [jenkins_step ''build'' ''api-build'', jenkins_step ''deploy'' ''broken'',
          jenkins_step ''smoke'' ''api-smoke'']) [] []"
proof -
  let ?steps = "[jenkins_step ''build'' ''api-build'', jenkins_step ''deploy'' ''broken'',
      jenkins_step ''smoke'' ''api-smoke'']"
  let ?results = "[\<lparr>sr_step = 1, sr_name = ''build'', sr_type = ''jenkins'',
        sr_result = success ''build done''\<rparr>,
       \<lparr>sr_step = 2, sr_name = ''deploy'', sr_type = ''jenkins'',
        sr_result = failure ''build failed''\<rparr>]"
  let ?w = "[(''jenkins'', [PStr ''api-build'', PDict [], PBool True]),
       (''jenkins'', [PStr ''broken'', PDict [], PBool True])]"
  have run: "run_steps recording [] 1 ?steps [] [] = (?results, ?w)"
    by (simp add: engine_eval)
  have k: "1 < length ?results" by simp
  have f: "step_failed (sr_result (?results ! 1))" by (simp add: step_failed_failure)
  from halts_at_first_failure [OF run k f, of "Some ''release''"]
  have "execute_workflow recording (Workflow (Some ''release'') (take (Suc 1) ?steps)) [] []
        = execute_workflow recording (Workflow (Some ''release'') ?steps) [] []"
    by blast
  then have "execute_workflow recording (Workflow (Some ''release'')
         [jenkins_step ''build'' ''api-build'', jenkins_step ''deploy'' ''broken'']) [] []
     = execute_workflow recording (Workflow (Some ''release'') ?steps) [] []"
    by simp
  with run show ?thesis by (simp add: step_failed_failure)
qed

text \<open>
  A workflow of two Jenkins steps that succeed: two entries, in order, and the report is
  their rendering.
\<close>

theorem report_covers_top_level_steps_witness:
  "run_steps recording [] 1
     [jenkins_step ''build'' ''api-build'', jenkins_step ''smoke'' ''api-smoke''] [] []
   = ([\<lparr>sr_step = 1, sr_name = ''build'', sr_type = ''jenkins'',
        sr_result = success ''build done''\<rparr>,
       \<lparr>sr_step = 2, sr_name = ''smoke'', sr_type = ''jenkins'',
        sr_result = success ''build done''\<rparr>],
      [(''jenkins'', [PStr ''api-build'', PDict [], PBool True]),
       (''jenkins'', [PStr ''api-smoke'', PDict [], PBool True])])
   \<and> all_success
        [\<lparr>sr_step = 1, sr_name = ''build'', sr_type = ''jenkins'',
          sr_result = success ''build done''\<rparr>,
         \<lparr>sr_step = 2, sr_name = ''smoke'', sr_type = ''jenkins'',
          sr_result = success ''build done''\<rparr>]
   \<and> execute_workflow recording (Workflow (Some ''release'')
         [jenkins_step ''build'' ''api-build'', jenkins_step ''smoke'' ''api-smoke'']) [] []
     = (format_workflow_result ''release''
          [\<lparr>sr_step = 1, sr_name = ''build'', sr_type = ''jenkins'',
            sr_result = success ''build done''\<rparr>,
           \<lparr>sr_step = 2, sr_name = ''smoke'', sr_type = ''jenkins'',
            sr_result = success ''build done''\<rparr>],
        [(''jenkins'', [PStr ''api-build'', PDict [], PBool True]),
         (''jenkins'', [PStr ''api-smoke'', PDict [], PBool True])])"
proof -
  let ?steps = "[jenkins_step ''build'' ''api-build'', jenkins_step ''smoke'' ''api-smoke'']"
  let ?results = "[\<lparr>sr_step = 1, sr_name = ''build'', sr_type = ''jenkins'',
        sr_result = success ''build done''\<rparr>,
       \<lparr>sr_step = 2, sr_name = ''smoke'', sr_type = ''jenkins'',
        sr_result = success ''build done''\<rparr>]"
  let ?w = "[(''jenkins'', [PStr ''api-build'', PDict [], PBool True]),
       (''jenkins'', [PStr ''api-smoke'', PDict [], PBool True])]"
  have run: "run_steps recording [] 1 ?steps [] [] = (?results, ?w)"
    by (simp add: engine_eval)
  from report_covers_top_level_steps [OF run, of "Some ''release''"]
  have "all_success ?results = (\<forall>r\<in>set ?results. \<not> step_failed (sr_result r))"
    and "?steps \<noteq> [] \<longrightarrow> execute_workflow recording (Workflow (Some ''release'') ?steps) [] []
           = (format_workflow_result (name_of (Some ''release'')) ?results, ?w)"
    by blast+
  with run show ?thesis by (simp add: step_failed_success name_of_def)
qed

text \<open>
  Claim C7 as stated fails for the steps of a branch.  After the build, the condition on
  its result runs the step \<open>publish\<close> of the \<open>then\<close> branch: the call reaches Jenkins,
  but the report holds the entries of the build and of the condition only.
\<close>

theorem nested_step_without_entry:
  "run_steps recording [] 1
     [jenkins_step ''build'' ''api-build'',
      Step (Some ''after build'') ''condition'' []
        \<lparr>cond_type = ''result'', cond_parameter = None, cond_value = PNone,
         cond_operator = None, cond_step = Some 1\<rparr>
        [jenkins_step ''publish'' ''api-publish''] [jenkins_step ''rollback'' ''api-rollback'']]
     [] []
   = ([\<lparr>sr_step = 1, sr_name = ''build'', sr_type = ''jenkins'',
        sr_result = success ''build done''\<rparr>,
       \<lparr>sr_step = 2, sr_name = ''after build'', sr_type = ''condition'',
        sr_result = success ''Condition evaluated to true''\<rparr>],
      [(''jenkins'', [PStr ''api-build'', PDict [], PBool True]),
       (''jenkins'', [PStr ''api-publish'', PDict [], PBool True])])"
  by (simp add: engine_eval)

text \<open>
  Claim C3 as stated fails.  The step of type \<open>bogus\<close> is recorded with a text that is not
  a failure, and the Jenkins step after it is executed and recorded.
\<close>

theorem unknown_step_type_does_not_halt:
  "run_steps recording [] 1
     [Step (Some ''mystery'') ''bogus'' [] no_condition [] [],
      jenkins_step ''build'' ''api-build''] [] []
   = ([\<lparr>sr_step = 1, sr_name = ''mystery'', sr_type = ''bogus'',
        sr_result = PStr ''Unknown step type: bogus''\<rparr>,
       \<lparr>sr_step = 2, sr_name = ''build'', sr_type = ''jenkins'',
        sr_result = success ''build done''\<rparr>],
      [(''jenkins'', [PStr ''api-build'', PDict [], PBool True])])
   \<and> \<not> step_failed (PStr ''Unknown step type: bogus'')"
  by (simp add: engine_eval)

text \<open>
  A nameless step of the unknown type \<open>Shell\<close> followed by a Jenkins step.
\<close>

theorem unknown_step_type_recorded_and_skipped_witness:
  "lower ''Shell'' \<notin> known_step_types
   \<and> run_steps recording [] 1
       [Step None ''Shell'' [(''cmd'', PStr ''ls'')] no_condition [] [],
        jenkins_step ''build'' ''api-build''] [] []
     = ([\<lparr>sr_step = 1, sr_name = ''Step 1'', sr_type = ''shell'',
          sr_result = PStr ''Unknown step type: shell''\<rparr>,
         \<lparr>sr_step = 2, sr_name = ''build'', sr_type = ''jenkins'',
          sr_result = success ''build done''\<rparr>],
        [(''jenkins'', [PStr ''api-build'', PDict [], PBool True])])"
proof -
  have u: "lower ''Shell'' \<notin> known_step_types"
    by (simp add: lower_def lower_char_def known_step_types_def)
  have n: "str_of_nat (Suc 0) = ''1''" by code_simp
  from unknown_step_type_recorded_and_skipped [OF u, of recording "[]" None
      "[(''cmd'', PStr ''ls'')]" no_condition "[]" "[]" "[]" "[]" 1
      "[jenkins_step ''build'' ''api-build'']"]
  have "run_steps recording [] 1
       [Step None ''Shell'' [(''cmd'', PStr ''ls'')] no_condition [] [],
        jenkins_step ''build'' ''api-build''] [] []
     = run_steps recording [] (Suc 1) [jenkins_step ''build'' ''api-build'']
         ([] @ [entry_of 1 (Step None ''Shell'' [(''cmd'', PStr ''ls'')] no_condition [] [])
                  (PStr (''Unknown step type: '' @ lower ''Shell''))]) []"
    by blast
  also have "\<dots> = ([\<lparr>sr_step = 1, sr_name = ''Step 1'', sr_type = ''shell'',
          sr_result = PStr ''Unknown step type: shell''\<rparr>,
         \<lparr>sr_step = 2, sr_name = ''build'', sr_type = ''jenkins'',
          sr_result = success ''build done''\<rparr>],
        [(''jenkins'', [PStr ''api-build'', PDict [], PBool True])])"
    by (simp add: engine_eval n)
  finally show ?thesis using u by simp
qed


text \<open>
  Claim C4 as stated fails in its second part.  With \<open>count = 3\<close> the \<open>then\<close> branch is
  selected and its step \<open>scale up\<close> reaches Jenkins, the step of the \<open>else\<close> branch does
  not; but the report holds the entry of the condition step only, not the result of
  \<open>scale up\<close>.
\<close>

theorem then_branch_results_not_reported:
  "run_steps recording [(''count'', PStr ''3'')] 1
     [Step (Some ''check count'') ''condition'' []
        \<lparr>cond_type = ''parameter'', cond_parameter = Some ''count'', cond_value = PStr ''3'',
         cond_operator = Some ''eq'', cond_step = None\<rparr>
        [jenkins_step ''scale up'' ''scale-job'']
        [jenkins_step ''scale down'' ''downscale-job'']] [] []
   = ([\<lparr>sr_step = 1, sr_name = ''check count'', sr_type = ''condition'',
        sr_result = success ''Condition evaluated to true''\<rparr>],
      [(''jenkins'', [PStr ''scale-job'', PDict [], PBool True])])"
  by (simp add: engine_eval)

text \<open>
  The same condition with two steps in its \<open>then\<close> branch: both reach Jenkins in order,
  the step of the \<open>else\<close> branch does not, and the report has the one entry.
\<close>

theorem count_condition_selects_then_witness:
  "run_steps recording [(''count'', PStr ''3'')] 1
     [Step (Some ''check count'') ''Condition'' []
        \<lparr>cond_type = ''parameter'', cond_parameter = Some ''count'', cond_value = PStr ''3'',
         cond_operator = Some ''eq'', cond_step = None\<rparr>
        [jenkins_step ''scale up'' ''scale-job'', jenkins_step ''warm up'' ''warm-job'']
        [jenkins_step ''scale down'' ''downscale-job'']] [] []
   = ([\<lparr>sr_step = 1, sr_name = ''check count'', sr_type = ''condition'',
        sr_result = success ''Condition evaluated to true''\<rparr>],
      [(''jenkins'', [PStr ''scale-job'', PDict [], PBool True]),
       (''jenkins'', [PStr ''warm-job'', PDict [], PBool True])])"
proof -
  let ?cond = "\<lparr>cond_type = ''parameter'', cond_parameter = Some ''count'',
       cond_value = PStr ''3'', cond_operator = Some ''eq'', cond_step = None\<rparr>"
  let ?th = "[jenkins_step ''scale up'' ''scale-job'', jenkins_step ''warm up'' ''warm-job'']"
  have ty: "lower ''Condition'' = ''condition''"
    by (simp add: lower_def lower_char_def char_of_eq_iff)
  have "run_steps recording [(''count'', PStr ''3'')] 1
     [Step (Some ''check count'') ''Condition'' [] ?cond ?th
        [jenkins_step ''scale down'' ''downscale-job'']] [] []
   = ([] @ [step_entry 1 (case Some ''check count'' of Some n \<Rightarrow> n
                          | None \<Rightarrow> ''Step '' @ str_of_nat 1)
              ''condition'' (success ''Condition evaluated to true'')],
      run_branch recording ?th [(''count'', PStr ''3'')] [])"
    using count_condition_selects_then [OF ty, of ?cond "[(''count'', PStr ''3'')]" recording
        "Some ''check count''" "[]" ?th "[jenkins_step ''scale down'' ''downscale-job'']" "[]" "[]" 1]
    by simp
  also have "\<dots> = ([\<lparr>sr_step = 1, sr_name = ''check count'', sr_type = ''condition'',
        sr_result = success ''Condition evaluated to true''\<rparr>],
      [(''jenkins'', [PStr ''scale-job'', PDict [], PBool True]),
       (''jenkins'', [PStr ''warm-job'', PDict [], PBool True])])"
    by (simp add: engine_eval)
  finally show ?thesis .
qed

text \<open>
  Claim C5 as stated fails.  A condition on a parameter that the command does not bind is
  recorded as a failure, no branch is run, and the workflow stops there: the Jenkins step
  after it is not executed.
\<close>

theorem condition_on_missing_parameter_fails:
  "run_steps recording [] 1
     [Step (Some ''check count'') ''condition'' []
        \<lparr>cond_type = ''parameter'', cond_parameter = Some ''count'', cond_value = PStr ''3'',
         cond_operator = Some ''eq'', cond_step = None\<rparr>
        [jenkins_step ''scale up'' ''scale-job'']
        [jenkins_step ''scale down'' ''downscale-job''],
      jenkins_step ''build'' ''api-build''] [] []
   = ([\<lparr>sr_step = 1, sr_name = ''check count'', sr_type = ''condition'',
        sr_result = failure (''Parameter '' @ quoted ''count'' @ '' not found'')\<rparr>],
      [])
   \<and> step_failed (failure (''Parameter '' @ quoted ''count'' @ '' not found''))"
  by (simp add: engine_eval quoted_def)

text \<open>
  A condition whose \<open>then\<close> branch holds a failing Jenkins job: the condition step is a
  success and the step after it is executed.
\<close>

theorem condition_step_reports_selected_branch_witness:
  "selected_branch
     \<lparr>cond_type = ''parameter'', cond_parameter = Some ''env'', cond_value = PStr ''prod'',
      cond_operator = None, cond_step = None\<rparr> [(''env'', PStr ''prod'')] [] = Some True
   \<and> run_steps recording [(''env'', PStr ''prod'')] 1
       [Step (Some ''gate'') ''condition'' []
          \<lparr>cond_type = ''parameter'', cond_parameter = Some ''env'', cond_value = PStr ''prod'',
           cond_operator = None, cond_step = None\<rparr>
          [jenkins_step ''deploy'' ''broken''] [],
        jenkins_step ''smoke'' ''api-smoke''] [] []
     = ([\<lparr>sr_step = 1, sr_name = ''gate'', sr_type = ''condition'',
          sr_result = success ''Condition evaluated to true''\<rparr>,
         \<lparr>sr_step = 2, sr_name = ''smoke'', sr_type = ''jenkins'',
          sr_result = success ''build done''\<rparr>],
        [(''jenkins'', [PStr ''broken'', PDict [], PBool True]),
         (''jenkins'', [PStr ''api-smoke'', PDict [], PBool True])])"
proof -
  let ?cond = "\<lparr>cond_type = ''parameter'', cond_parameter = Some ''env'',
       cond_value = PStr ''prod'', cond_operator = None, cond_step = None\<rparr>"
  let ?ps = "[(''env'', PStr ''prod'')]"
  let ?s = "Step (Some ''gate'') ''condition'' [] ?cond [jenkins_step ''deploy'' ''broken''] []"
  have ty: "lower ''condition'' = ''condition''" by (simp add: lower_def lower_char_def)
  have sel: "selected_branch ?cond ?ps [] = Some True"
    by (simp add: selected_branch_def evaluate_condition_def)
  from condition_step_reports_selected_branch [OF ty sel, of recording "Some ''gate''" "[]"
      "[jenkins_step ''deploy'' ''broken'']" "[]" "[]" 1 "[jenkins_step ''smoke'' ''api-smoke'']"]
  have "run_steps recording ?ps 1 [?s, jenkins_step ''smoke'' ''api-smoke''] [] []
     = run_steps recording ?ps (Suc 1) [jenkins_step ''smoke'' ''api-smoke'']
         ([] @ [entry_of 1 ?s (success (if True then ''Condition evaluated to true''
                                        else ''Condition evaluated to false''))])
         (run_branch recording (if True then [jenkins_step ''deploy'' ''broken''] else []) ?ps [])"
    by blast
  also have "\<dots> = ([\<lparr>sr_step = 1, sr_name = ''gate'', sr_type = ''condition'',
          sr_result = success ''Condition evaluated to true''\<rparr>,
         \<lparr>sr_step = 2, sr_name = ''smoke'', sr_type = ''jenkins'',
          sr_result = success ''build done''\<rparr>],
        [(''jenkins'', [PStr ''broken'', PDict [], PBool True]),
         (''jenkins'', [PStr ''api-smoke'', PDict [], PBool True])])"
    by (simp add: engine_eval)
  finally show ?thesis using sel by simp
qed

text \<open>
  A condition with the operator \<open>matches\<close>: the evaluation is false although both values
  are equal, and the \<open>else\<close> branch is run.
\<close>

theorem unknown_operator_is_false_witness:
  "''matches'' \<notin> known_operators
   \<and> evaluate_condition (PStr ''prod'') (PStr ''prod'') ''matches'' = Inr False
   \<and> execute_condition_step recording
       (Step (Some ''gate'') ''condition'' []
          \<lparr>cond_type = ''parameter'', cond_parameter = Some ''env'', cond_value = PStr ''prod'',
           cond_operator = Some ''matches'', cond_step = None\<rparr>
          [jenkins_step ''deploy'' ''api-deploy''] [jenkins_step ''hold'' ''hold-job''])
       [(''env'', PStr ''prod'')] [] []
     = (Inr (success ''Condition evaluated to false''),
        [(''jenkins'', [PStr ''hold-job'', PDict [], PBool True])])"
proof -
  let ?cond = "\<lparr>cond_type = ''parameter'', cond_parameter = Some ''env'',
       cond_value = PStr ''prod'', cond_operator = Some ''matches'', cond_step = None\<rparr>"
  let ?ps = "[(''env'', PStr ''prod'')]"
  have u: "''matches'' \<notin> known_operators" by (simp add: known_operators_def)
  have h: "cond_type ?cond = ''parameter'' \<and> cond_parameter ?cond = Some ''env''
          \<and> map_of ?ps ''env'' = Some (PStr ''prod'') \<and> cond_operator ?cond = Some ''matches''"
    by simp
  from unknown_operator_is_false [OF u, of "PStr ''prod''" "PStr ''prod''" ?cond "''env''" ?ps
      recording "Some ''gate''" "''condition''" "[]" "[jenkins_step ''deploy'' ''api-deploy'']"
      "[jenkins_step ''hold'' ''hold-job'']" "[]" "[]"] h
  have "evaluate_condition (PStr ''prod'') (PStr ''prod'') ''matches'' = Inr False"
    and "execute_condition_step recording
       (Step (Some ''gate'') ''condition'' [] ?cond
          [jenkins_step ''deploy'' ''api-deploy''] [jenkins_step ''hold'' ''hold-job'']) ?ps [] []
     = (Inr (success ''Condition evaluated to false''),
        run_branch recording [jenkins_step ''hold'' ''hold-job''] ?ps [])"
    by blast+
  moreover have "run_branch recording [jenkins_step ''hold'' ''hold-job''] ?ps []
     = [(''jenkins'', [PStr ''hold-job'', PDict [], PBool True])]"
    by (simp add: engine_eval)
  ultimately show ?thesis using u by simp
qed

text \<open>
  Claim C8 as stated fails.  The entities of the message \<open>deploy to staging\<close> lack the
  required \<open>service\<close>, so the command builder would reject it; sent by a user who is not
  authorized, the message is answered by the denial of the authorization check, which
  \<open>process_message\<close> runs first.
\<close>

theorem authorization_precedes_command_builder:
  "demo_nlp ''deploy to staging'' = (''deploy'', [(''environment'', PStr ''staging'')], 0.9)
   \<and> parse command_templates ''deploy'' [(''environment'', PStr ''staging'')] = None
   \<and> process_message demo_app ''deploy to staging'' ''mallory'' ''ops'' []
       = (not_authorized_text, [])"
  by (simp add: demo_nlp_def parse_def command_templates_def dict_has_def process_message_def
        is_user_authorized_def demo_app_def demo_config_def)

text \<open>
  The same message sent by an authorized user is rejected by the command builder.
\<close>

theorem missing_entity_rejected_after_authorization_witness:
  "is_user_authorized (app_config demo_app) ''bob'' ''deploy to staging''
   \<and> \<not> dict_has [(''environment'', PStr ''staging'')] ''service''
   \<and> process_message demo_app ''deploy to staging'' ''bob'' ''ops'' []
       = (not_understood_text, [])"
proof -
  let ?t = "\<lparr>tpl_action = ''deploy'',
        tpl_required_entities = [''service''],
        tpl_optional_entities = [''environment'', ''version''],
        tpl_defaults = [(''environment'', PStr ''development''), (''version'', PStr ''latest'')],
        tpl_workflow = Some ''deploy_workflow.yaml''\<rparr>"
  have n: "nlp_process demo_app ''deploy to staging''
           = (''deploy'', [(''environment'', PStr ''staging'')], 0.9)"
    by (simp add: demo_app_def demo_nlp_def)
  have t: "map_of (app_templates demo_app) ''deploy'' = Some ?t"
    by (simp add: demo_app_def command_templates_def)
  have r: "''service'' \<in> set (tpl_required_entities ?t)" by simp
  have m: "\<not> dict_has [(''environment'', PStr ''staging'')] ''service''"
    by (simp add: dict_has_def)
  have a: "is_user_authorized (app_config demo_app) ''bob'' ''deploy to staging''"
    by code_simp
  have c: "\<not> (0.9::real) < confidence_threshold (app_config demo_app)"
    by (simp add: demo_app_def demo_config_def)
  from missing_entity_rejected_after_authorization [OF n t r m, of "''bob''" "''ops''" "[]"] a c
  have "process_message demo_app ''deploy to staging'' ''bob'' ''ops'' []
       = (not_understood_text, [])"
    by simp
  with a m show ?thesis by simp
qed

end
